theory Spec2Isabelle
  imports Main
begin

section \<open>Python strings and dictionaries\<close>

text \<open>
  Strings are lists of characters. The case conversions and the whitespace test follow
  Python on the ASCII range, which is where SQL type names and the patterns of the
  index heuristics live; a character outside it is left as it is.
\<close>

definition newline :: string where
  "newline = [CHR 0x0A]"

definition ascii_lowercase :: string where
  "ascii_lowercase = ''abcdefghijklmnopqrstuvwxyz''"

definition ascii_uppercase :: string where
  "ascii_uppercase = ''ABCDEFGHIJKLMNOPQRSTUVWXYZ''"

definition upper_char :: "char \<Rightarrow> char" where
  "upper_char c =
     (case map_of (zip ascii_lowercase ascii_uppercase) c of None \<Rightarrow> c | Some u \<Rightarrow> u)"

definition lower_char :: "char \<Rightarrow> char" where
  "lower_char c =
     (case map_of (zip ascii_uppercase ascii_lowercase) c of None \<Rightarrow> c | Some l \<Rightarrow> l)"

text \<open>\<^verbatim>\<open>s.upper()\<close> and \<^verbatim>\<open>s.lower()\<close>.\<close>

definition str_upper :: "string \<Rightarrow> string" where
  "str_upper s = map upper_char s"

definition str_lower :: "string \<Rightarrow> string" where
  "str_lower s = map lower_char s"

text \<open>The ASCII characters for which \<^verbatim>\<open>str.isspace\<close> holds: codes 9 to 13, 28 to 32.\<close>

definition is_space :: "char \<Rightarrow> bool" where
  "is_space c =
     (c \<in> set [CHR 0x09, CHR 0x0A, CHR 0x0B, CHR 0x0C, CHR 0x0D,
                CHR 0x1C, CHR 0x1D, CHR 0x1E, CHR 0x1F, CHR 0x20])"

text \<open>\<^verbatim>\<open>s.strip()\<close>.\<close>

definition str_strip :: "string \<Rightarrow> string" where
  "str_strip s = rev (dropWhile is_space (rev (dropWhile is_space s)))"

text \<open>\<^verbatim>\<open>s.startswith(p)\<close>.\<close>

fun startswith :: "string \<Rightarrow> string \<Rightarrow> bool" where
  "startswith s [] = True"
| "startswith [] (p # ps) = False"
| "startswith (c # cs) (p # ps) = (c = p \<and> startswith cs ps)"

text \<open>\<^verbatim>\<open>p in s\<close> on strings: \<open>p\<close> occurs in \<open>s\<close> as a contiguous substring.\<close>

fun str_contains :: "string \<Rightarrow> string \<Rightarrow> bool" where
  "str_contains p [] = (p = [])"
| "str_contains p (c # cs) = (startswith (c # cs) p \<or> str_contains p cs)"

text \<open>\<^verbatim>\<open>s.find(p)\<close>: the lowest index at which \<open>p\<close> occurs, or \<open>-1\<close>.\<close>

fun str_find :: "string \<Rightarrow> string \<Rightarrow> int" where
  "str_find [] p = (if p = [] then 0 else - 1)"
| "str_find (c # cs) p =
     (if startswith (c # cs) p then 0
      else (let r = str_find cs p in if r < 0 then - 1 else r + 1))"

text \<open>The slice \<^verbatim>\<open>s[i:]\<close>; a negative index counts from the end.\<close>

definition slice_from :: "string \<Rightarrow> int \<Rightarrow> string" where
  "slice_from s i =
     (if i < 0 then drop (nat (int (length s) + i)) s else drop (nat i) s)"

text \<open>\<^verbatim>\<open>s.split(sep)[0]\<close> for a one-character separator: the text before its first
  occurrence, the whole string when it does not occur.\<close>

definition split_first :: "char \<Rightarrow> string \<Rightarrow> string" where
  "split_first sep s = takeWhile (\<lambda>c. c \<noteq> sep) s"

text \<open>\<^verbatim>\<open>sep.join(xs)\<close>.\<close>

fun join :: "string \<Rightarrow> string list \<Rightarrow> string" where
  "join sep [] = []"
| "join sep [x] = x"
| "join sep (x # y # ys) = x @ sep @ join sep (y # ys)"

text \<open>\<^verbatim>\<open>s.replace(old, new)\<close>: every non-overlapping occurrence, left to right. The
  source calls it with a non-empty \<open>old\<close>; on an empty one the model returns \<open>s\<close>.\<close>

function str_replace :: "string \<Rightarrow> string \<Rightarrow> string \<Rightarrow> string" where
  "str_replace s old new =
     (if old = [] \<or> s = [] then s
      else if startswith s old then new @ str_replace (drop (length old) s) old new
      else hd s # str_replace (tl s) old new)"
  by pat_completeness auto
termination
  by (relation "measure (\<lambda>(s, old, new). length s)") auto

text \<open>A dictionary literal is an association list; \<^verbatim>\<open>d.get(k, default)\<close>.\<close>

definition dict_get :: "('k \<times> 'v) list \<Rightarrow> 'k \<Rightarrow> 'v \<Rightarrow> 'v" where
  "dict_get d k dflt = (case map_of d k of None \<Rightarrow> dflt | Some v \<Rightarrow> v)"

section \<open>The schema converter (\<^verbatim>\<open>parquet_to_postgres.py\<close>)\<close>

record ParquetToPostgres =
  lowercase_columns :: bool

definition DUCKDB_TO_POSTGRES :: "(string \<times> string) list" where
  "DUCKDB_TO_POSTGRES =
    [(''INTEGER'', ''INTEGER''),
     (''BIGINT'', ''BIGINT''),
     (''SMALLINT'', ''SMALLINT''),
     (''TINYINT'', ''SMALLINT''),
     (''DOUBLE'', ''DOUBLE PRECISION''),
     (''REAL'', ''REAL''),
     (''FLOAT'', ''REAL''),
     (''DECIMAL'', ''DECIMAL''),
     (''NUMERIC'', ''NUMERIC''),
     (''VARCHAR'', ''VARCHAR''),
     (''CHAR'', ''CHAR''),
     (''TEXT'', ''TEXT''),
     (''STRING'', ''TEXT''),
     (''TIMESTAMP'', ''TIMESTAMP''),
     (''TIMESTAMPTZ'', ''TIMESTAMPTZ''),
     (''DATE'', ''DATE''),
     (''TIME'', ''TIME''),
     (''BOOLEAN'', ''BOOLEAN''),
     (''BOOL'', ''BOOLEAN''),
     (''BLOB'', ''BYTEA''),
     (''BYTEA'', ''BYTEA''),
     (''UUID'', ''UUID''),
     (''JSON'', ''JSONB''),
     (''JSONB'', ''JSONB'')]"

definition ARROW_TO_POSTGRES :: "(string \<times> string) list" where
  "ARROW_TO_POSTGRES =
    [(''int8'', ''SMALLINT''),
     (''int16'', ''SMALLINT''),
     (''int32'', ''INTEGER''),
     (''int64'', ''BIGINT''),
     (''uint8'', ''SMALLINT''),
     (''uint16'', ''INTEGER''),
     (''uint32'', ''BIGINT''),
     (''uint64'', ''BIGINT''),
     (''float'', ''REAL''),
     (''double'', ''DOUBLE PRECISION''),
     (''string'', ''TEXT''),
     (''large_string'', ''TEXT''),
     (''binary'', ''BYTEA''),
     (''large_binary'', ''BYTEA''),
     (''bool'', ''BOOLEAN''),
     (''date32'', ''DATE''),
     (''date64'', ''DATE''),
     (''timestamp'', ''TIMESTAMP''),
     (''time32'', ''TIME''),
     (''time64'', ''TIME'')]"

definition clean_column_name :: "ParquetToPostgres \<Rightarrow> string \<Rightarrow> string" where
  "clean_column_name self col_name =
     (let cleaned = str_strip col_name
      in if lowercase_columns self then str_lower cleaned else cleaned)"

definition map_duckdb_type :: "ParquetToPostgres \<Rightarrow> string \<Rightarrow> string" where
  "map_duckdb_type self duckdb_type =
     (let base_type = split_first CHR ''('' (str_upper duckdb_type);
          postgres_type = dict_get DUCKDB_TO_POSTGRES base_type duckdb_type
      in if str_contains ''('' duckdb_type
            \<and> base_type \<in> set [''DECIMAL'', ''NUMERIC'', ''VARCHAR'', ''CHAR'']
         then (let precision_part = slice_from duckdb_type (str_find duckdb_type ''('')
               in postgres_type @ precision_part)
         else postgres_type)"

definition map_arrow_type :: "ParquetToPostgres \<Rightarrow> string \<Rightarrow> string" where
  "map_arrow_type self type_str =
     (if startswith type_str ''timestamp''
      then (if str_contains ''tz='' type_str then ''TIMESTAMPTZ'' else ''TIMESTAMP'')
      else if startswith type_str ''decimal''
      then str_replace (str_upper type_str) ''DECIMAL'' ''DECIMAL''
      else (let base_type = split_first CHR ''['' type_str
            in dict_get ARROW_TO_POSTGRES base_type ''TEXT''))"

text \<open>
  The body of the loop of \<^verbatim>\<open>_generate_create_table\<close>: the target type of one column,
  chosen by the source type system, and the column's definition line.
\<close>

definition column_postgres_type :: "ParquetToPostgres \<Rightarrow> string \<Rightarrow> string \<Rightarrow> string" where
  "column_postgres_type self source_type dtype =
     (if source_type = ''duckdb'' then map_duckdb_type self dtype
      else if source_type = ''arrow'' then map_arrow_type self dtype
      else dict_get DUCKDB_TO_POSTGRES (str_upper dtype) dtype)"

definition column_definition ::
  "ParquetToPostgres \<Rightarrow> string \<Rightarrow> string \<times> string \<Rightarrow> string" where
  "column_definition self source_type cd =
     (case cd of (col, dtype) \<Rightarrow>
        ''    '' @ clean_column_name self col @ '' ''
          @ column_postgres_type self source_type dtype)"

definition column_definitions ::
  "ParquetToPostgres \<Rightarrow> string list \<Rightarrow> string list \<Rightarrow> string \<Rightarrow> string list" where
  "column_definitions self columns dtypes source_type =
     map (column_definition self source_type) (zip columns dtypes)"

definition generate_create_table ::
  "ParquetToPostgres \<Rightarrow> string list \<Rightarrow> string list \<Rightarrow> string \<Rightarrow> string \<Rightarrow> string" where
  "generate_create_table self columns dtypes table_name source_type =
     ''CREATE TABLE '' @ table_name @ '' ('' @ newline
       @ join ('','' @ newline) (column_definitions self columns dtypes source_type)
       @ newline @ '');''"

text \<open>\<^verbatim>\<open>from_pandas_dataframe\<close>: the dtype strings are standardised first.\<close>

definition standardize_dtype :: "string \<Rightarrow> string" where
  "standardize_dtype dtype =
     (if str_contains ''int'' dtype
      then (if str_contains ''64'' dtype then ''BIGINT'' else ''INTEGER'')
      else if str_contains ''float'' dtype then ''DOUBLE''
      else if str_contains ''bool'' dtype then ''BOOLEAN''
      else if str_contains ''datetime'' dtype then ''TIMESTAMP''
      else if str_contains ''object'' dtype then ''VARCHAR''
      else ''TEXT'')"

definition from_pandas_dataframe ::
  "ParquetToPostgres \<Rightarrow> string list \<Rightarrow> string list \<Rightarrow> string \<Rightarrow> string" where
  "from_pandas_dataframe self columns dtypes table_name =
     generate_create_table self columns (map standardize_dtype dtypes) table_name ''pandas''"

text \<open>\<^verbatim>\<open>generate_sample_indexes\<close>: index statements suggested from the column names.\<close>

definition datetime_patterns :: "string list" where
  "datetime_patterns =
     [''datetime'', ''timestamp'', ''date'', ''time'', ''created'', ''updated'']"

definition id_patterns :: "string list" where
  "id_patterns = [''id'', ''key'', ''code'']"

definition sample_index_statement :: "string \<Rightarrow> string \<Rightarrow> string" where
  "sample_index_statement table_name clean_col =
     ''CREATE INDEX idx_'' @ table_name @ ''_'' @ str_lower clean_col
       @ '' ON '' @ table_name @ ''('' @ clean_col @ '');''"

fun sample_indexes :: "ParquetToPostgres \<Rightarrow> string list \<Rightarrow> string \<Rightarrow> string list" where
  "sample_indexes self [] table_name = []"
| "sample_indexes self (col # columns) table_name =
     (let col_lower = str_lower col;
          clean_col = clean_column_name self col
      in (if list_ex (\<lambda>pattern. str_contains pattern col_lower) datetime_patterns
          then [sample_index_statement table_name clean_col]
          else if list_ex (\<lambda>pattern. str_contains pattern col_lower) id_patterns
          then [sample_index_statement table_name clean_col]
          else [])
         @ sample_indexes self columns table_name)"

definition generate_sample_indexes ::
  "ParquetToPostgres \<Rightarrow> string list \<Rightarrow> string \<Rightarrow> string" where
  "generate_sample_indexes self columns table_name =
     (let indexes = sample_indexes self columns table_name
      in if indexes \<noteq> []
         then newline @ ''-- Suggested indexes:'' @ newline @ join newline indexes
         else newline @ ''-- No obvious index candidates found'')"

section \<open>The loader (\<^verbatim>\<open>parquet_to_postgres_loader.py\<close>): schema mapping\<close>

text \<open>The dictionary local to \<^verbatim>\<open>create_table_from_parquet\<close>.\<close>

definition type_mapping :: "(string \<times> string) list" where
  "type_mapping =
    [(''INTEGER'', ''INTEGER''),
     (''BIGINT'', ''BIGINT''),
     (''SMALLINT'', ''SMALLINT''),
     (''TINYINT'', ''SMALLINT''),
     (''DOUBLE'', ''DOUBLE PRECISION''),
     (''REAL'', ''REAL''),
     (''FLOAT'', ''REAL''),
     (''DECIMAL'', ''DECIMAL''),
     (''NUMERIC'', ''NUMERIC''),
     (''VARCHAR'', ''TEXT''),
     (''CHAR'', ''CHAR''),
     (''TEXT'', ''TEXT''),
     (''STRING'', ''TEXT''),
     (''TIMESTAMP'', ''TIMESTAMP''),
     (''TIMESTAMPTZ'', ''TIMESTAMPTZ''),
     (''DATE'', ''DATE''),
     (''TIME'', ''TIME''),
     (''BOOLEAN'', ''BOOLEAN''),
     (''BOOL'', ''BOOLEAN''),
     (''BLOB'', ''BYTEA''),
     (''UUID'', ''UUID''),
     (''JSON'', ''JSONB'')]"

text \<open>
  The body of the loop over the rows of \<^verbatim>\<open>DESCRIBE\<close>: \<open>row1\<close> is the type column
  \<^verbatim>\<open>row[1]\<close> as the engine returned it.
\<close>

definition loader_postgres_type :: "string \<Rightarrow> string" where
  "loader_postgres_type row1 =
     (let col_type = str_upper row1;
          base_type = split_first CHR ''('' col_type;
          postgres_type = dict_get type_mapping base_type col_type
      in if str_contains ''('' col_type \<and> base_type \<in> set [''DECIMAL'', ''NUMERIC'']
         then (let precision_part = slice_from col_type (str_find col_type ''('')
               in postgres_type @ precision_part)
         else postgres_type)"

definition loader_column_definition :: "string \<times> string \<Rightarrow> string" where
  "loader_column_definition row =
     (case row of (col_name, row1) \<Rightarrow>
        ''    '' @ col_name @ '' '' @ loader_postgres_type row1)"

definition loader_create_sql :: "(string \<times> string) list \<Rightarrow> string \<Rightarrow> string" where
  "loader_create_sql relation table_name =
     ''CREATE TABLE '' @ table_name @ '' ('' @ newline
       @ join ('','' @ newline) (map loader_column_definition relation)
       @ newline @ '');''"

text \<open>The two tests of the loop of \<^verbatim>\<open>create_suggested_indexes\<close>, in the source's order.\<close>

definition loader_index_wanted :: "string \<Rightarrow> bool" where
  "loader_index_wanted col_name =
     (let col_lower = str_lower col_name
      in if list_ex (\<lambda>pattern. str_contains pattern col_lower)
              [''datetime'', ''timestamp'', ''date'', ''time'']
         then True
         else if list_ex (\<lambda>pattern. str_contains pattern col_lower) [''id'', ''key'', ''code'']
                 \<and> col_lower \<noteq> ''id''
         then True
         else False)"

definition loader_index_statement :: "string \<Rightarrow> string \<Rightarrow> string" where
  "loader_index_statement table_name col_name =
     ''CREATE INDEX idx_'' @ table_name @ ''_'' @ str_lower col_name
       @ '' ON '' @ table_name @ ''('' @ col_name @ '')''"

section \<open>The loader: external calls, exceptions and traces\<close>

text \<open>
  The loader talks to three collaborators: the DuckDB engine that reads the parquet file,
  the PostgreSQL server, and the local file system. Each call the source makes on one of
  them is a constructor of \<open>call\<close>, with the arguments the source passes.
\<close>

type_synonym row = "string list"

datatype call =
    DuckConnect
  | DuckClose
  | DuckDescribe string
  | DuckCount string
  | DuckInstallPostgres
  | DuckLoadPostgres
  | DuckAttach string
  | DuckInsertSelect string string
  | DuckCopyToCsv string string
  | DuckSelectPage string int int
  | TempFileCreate string
  | FileOpen string
  | FileUnlink string
  | PgConnect string
  | PgDropTable string
  | PgCreateTable string
  | PgSelectColumns string
  | PgCreateIndex string
  | PgCopyFrom string string
  | PgExecuteMany string "row list"
  | PgCommit
  | PgExit bool

text \<open>
  On the engine: \<open>DuckConnect\<close> is \<^verbatim>\<open>duckdb.connect()\<close> and \<open>DuckClose\<close> is
  \<^verbatim>\<open>conn.close()\<close>; the others are \<^verbatim>\<open>conn.execute\<close> of a statement on the parquet file
  \<open>f\<close>: \<open>DuckDescribe f\<close> is \<^verbatim>\<open>DESCRIBE SELECT * FROM 'f'\<close>, \<open>DuckCount f\<close> is
  \<^verbatim>\<open>SELECT COUNT(*) FROM 'f'\<close>, \<open>DuckSelectPage f l o\<close> is
  \<^verbatim>\<open>SELECT * FROM 'f' LIMIT l OFFSET o\<close>, \<open>DuckCopyToCsv f path\<close> is the export
  \<^verbatim>\<open>COPY (SELECT * FROM 'f') TO 'path'\<close>, \<open>DuckInstallPostgres\<close> and \<open>DuckLoadPostgres\<close> are
  \<^verbatim>\<open>INSTALL postgres\<close> and \<^verbatim>\<open>LOAD postgres\<close>, \<open>DuckAttach c\<close> is
  \<^verbatim>\<open>ATTACH 'c' AS postgres_db (TYPE POSTGRES)\<close>, and \<open>DuckInsertSelect t f\<close> is
  \<^verbatim>\<open>INSERT INTO postgres_db.t SELECT * FROM 'f'\<close>.

  On the file system: \<open>TempFileCreate path\<close> is \<^verbatim>\<open>NamedTemporaryFile(delete=False)\<close>
  returning a file of that name, \<open>FileOpen path\<close> is \<^verbatim>\<open>open(path, "r")\<close> and
  \<open>FileUnlink path\<close> is \<^verbatim>\<open>Path(path).unlink()\<close>.

  On the server: \<open>PgConnect c\<close> is \<^verbatim>\<open>psycopg.connect(c)\<close>; \<open>PgDropTable t\<close> is
  \<^verbatim>\<open>DROP TABLE IF EXISTS t\<close>; \<open>PgCreateTable sql\<close> and \<open>PgCreateIndex sql\<close> are
  \<^verbatim>\<open>cur.execute(sql)\<close> of the generated statement; \<open>PgSelectColumns t\<close> is the query of
  \<^verbatim>\<open>information_schema.columns\<close> for the table; \<open>PgCopyFrom t path\<close> is
  \<^verbatim>\<open>COPY t FROM STDIN WITH CSV\<close> fed with the contents of the file; \<open>PgExecuteMany sql rows\<close>
  is \<^verbatim>\<open>cur.executemany(sql, rows)\<close>; \<open>PgCommit\<close> is \<^verbatim>\<open>pg_conn.commit()\<close>.
  \<open>PgExit\<close> is the end of a \<^verbatim>\<open>with psycopg.connect(...)\<close> block: commit and close when
  the block ended normally (\<open>True\<close>), roll back and close when it raised (\<open>False\<close>).

  The messages are the calls of \<^verbatim>\<open>logger.info\<close>, with the values they print.
\<close>

datatype message =
    Starting string string
  | CreatedTable string
  | LoadedDirect string
  | LoadedCopy nat string
  | LoadedBatch int int int
  | Completed int string
  | CreatedIndexes nat string
  | Succeeded string string

datatype exn = ValueError string | CallError call

text \<open>
  What a run leaves behind, in order: the calls that returned, the calls that raised, the
  exceptions the loader raised itself, and the messages it logged.
\<close>

datatype event = Ok call | Failed call | Raised exn | Info message

text \<open>
  What the collaborators do is not the loader's to decide. The environment says which
  calls raise, given everything that happened before, and what the queries return: the
  rows of \<^verbatim>\<open>DESCRIBE\<close> (name and type of each column), the rows of the parquet file,
  the name the operating system gives the temporary file, and the columns the catalogue
  of the target lists for the table.
\<close>

record env =
  fails :: "event list \<Rightarrow> call \<Rightarrow> bool"
  describe_result :: "(string \<times> string) list"
  source_rows :: "row list"
  temp_name :: string
  catalog_columns :: "(string \<times> string) list"

text \<open>
  A piece of the loader is run after a history of events and returns its result, an
  exception or a value, with the events it added.
\<close>

type_synonym 'a action = "event list \<Rightarrow> (exn + 'a) \<times> event list"

definition return :: "'a \<Rightarrow> 'a action" where
  "return x h = (Inr x, [])"

definition raise :: "exn \<Rightarrow> 'a action" where
  "raise e h = (Inl e, [Raised e])"

definition bind :: "'a action \<Rightarrow> ('a \<Rightarrow> 'b action) \<Rightarrow> 'b action" where
  "bind m f h =
     (case m h of
        (Inl e, t) \<Rightarrow> (Inl e, t)
      | (Inr x, t) \<Rightarrow> (case f x (h @ t) of (r, t') \<Rightarrow> (r, t @ t')))"

definition perform :: "env \<Rightarrow> call \<Rightarrow> unit action" where
  "perform E c h =
     (if fails E h c then (Inl (CallError c), [Failed c]) else (Inr (), [Ok c]))"

definition logger_info :: "message \<Rightarrow> unit action" where
  "logger_info m h = (Inr (), [Info m])"

text \<open>\<^verbatim>\<open>try: body finally: fin\<close>: \<open>fin\<close> runs on every exit of \<open>body\<close>; an exception of
  \<open>fin\<close> replaces the outcome of \<open>body\<close>.\<close>

definition try_finally :: "'a action \<Rightarrow> unit action \<Rightarrow> 'a action" where
  "try_finally body fin h =
     (case body h of (r, t) \<Rightarrow>
        (case fin (h @ t) of
           (Inl e, t') \<Rightarrow> (Inl e, t @ t')
         | (Inr u, t') \<Rightarrow> (r, t @ t')))"

text \<open>\<^verbatim>\<open>with psycopg.connect(conn_str) as pg_conn: body\<close>. When the body raises, the
  connection rolls back without replacing the exception.\<close>

definition pg_session :: "env \<Rightarrow> string \<Rightarrow> 'a action \<Rightarrow> 'a action" where
  "pg_session E conn_str body h =
     (case perform E (PgConnect conn_str) h of
        (Inl e, t) \<Rightarrow> (Inl e, t)
      | (Inr u, t) \<Rightarrow>
          (case body (h @ t) of
             (Inl e, t') \<Rightarrow> (Inl e, t @ t' @ snd (perform E (PgExit False) (h @ t @ t')))
           | (Inr x, t') \<Rightarrow>
               (case perform E (PgExit True) (h @ t @ t') of
                  (Inl e, t'') \<Rightarrow> (Inl e, t @ t' @ t'')
                | (Inr u', t'') \<Rightarrow> (Inr x, t @ t' @ t''))))"

text \<open>The temporary files present after a trace, from those present before it.\<close>

fun fs_step :: "string list \<Rightarrow> event \<Rightarrow> string list" where
  "fs_step fs (Ok (TempFileCreate p)) = List.insert p fs"
| "fs_step fs (Ok (FileUnlink p)) = removeAll p fs"
| "fs_step fs e = fs"

definition files_after :: "string list \<Rightarrow> event list \<Rightarrow> string list" where
  "files_after fs t = foldl fs_step fs t"

section \<open>The loader: operations\<close>

record ParquetToPostgresLoader =
  pg_conn_str :: string

definition create_table_from_parquet ::
  "env \<Rightarrow> ParquetToPostgresLoader \<Rightarrow> string \<Rightarrow> string \<Rightarrow> bool \<Rightarrow> string action" where
  "create_table_from_parquet E self parquet_file table_name drop_if_exists =
     bind (perform E DuckConnect) (\<lambda>_.
     try_finally
       (bind (perform E (DuckDescribe parquet_file)) (\<lambda>_.
          let relation = describe_result E;
              drop_sql = (if drop_if_exists
                          then ''DROP TABLE IF EXISTS '' @ table_name @ '';'' else []);
              create_sql = loader_create_sql relation table_name;
              full_sql = (if drop_sql \<noteq> [] then drop_sql @ newline @ create_sql
                          else create_sql)
          in bind (pg_session E (pg_conn_str self)
                     (bind (if drop_if_exists then perform E (PgDropTable table_name)
                            else return ()) (\<lambda>_.
                      bind (perform E (PgCreateTable create_sql)) (\<lambda>_.
                      perform E PgCommit)))) (\<lambda>_.
             bind (logger_info (CreatedTable table_name)) (\<lambda>_.
             return full_sql))))
       (perform E DuckClose))"

text \<open>The test of the connection string is the source's: \<^verbatim>\<open>"postgresql://" in
  self.pg_conn_str\<close>. The unused \<^verbatim>\<open>_attach_str\<close> is left out.\<close>

definition load_data_direct_duckdb ::
  "env \<Rightarrow> ParquetToPostgresLoader \<Rightarrow> string \<Rightarrow> string \<Rightarrow> unit action" where
  "load_data_direct_duckdb E self parquet_file table_name =
     bind (perform E DuckConnect) (\<lambda>_.
     try_finally
       (bind (perform E DuckInstallPostgres) (\<lambda>_.
        bind (perform E DuckLoadPostgres) (\<lambda>_.
        if str_contains ''postgresql://'' (pg_conn_str self)
        then bind (perform E (DuckAttach (pg_conn_str self))) (\<lambda>_.
             bind (perform E (DuckInsertSelect table_name parquet_file)) (\<lambda>_.
             logger_info (LoadedDirect table_name)))
        else raise (ValueError
          ''Connection string must be in postgresql:// format for direct DuckDB method''))))
       (perform E DuckClose))"

text \<open>
  \<open>load_data_copy\<close>. The parameter \<^verbatim>\<open>chunk_size\<close> of the source is never read and is left
  out. The temporary file is created with \<^verbatim>\<open>delete=False\<close>; the only statement that removes
  it is the \<^verbatim>\<open>unlink\<close> after the connection block, inside the \<^verbatim>\<open>try\<close>, and the
  \<^verbatim>\<open>finally\<close> clause closes the DuckDB connection.
\<close>

definition load_data_copy ::
  "env \<Rightarrow> ParquetToPostgresLoader \<Rightarrow> string \<Rightarrow> string \<Rightarrow> unit action" where
  "load_data_copy E self parquet_file table_name =
     bind (perform E DuckConnect) (\<lambda>_.
     try_finally
       (bind (perform E (TempFileCreate (temp_name E))) (\<lambda>_.
          let csv_path = temp_name E
          in bind (perform E (DuckCopyToCsv parquet_file csv_path)) (\<lambda>_.
             bind (perform E (DuckCount parquet_file)) (\<lambda>_.
             let row_count = length (source_rows E)
             in bind (pg_session E (pg_conn_str self)
                        (bind (perform E (FileOpen csv_path)) (\<lambda>_.
                         bind (perform E (PgCopyFrom table_name csv_path)) (\<lambda>_.
                         perform E PgCommit)))) (\<lambda>_.
                bind (perform E (FileUnlink csv_path)) (\<lambda>_.
                logger_info (LoadedCopy row_count table_name)))))))
       (perform E DuckClose))"

text \<open>\<^verbatim>\<open>SELECT * FROM file LIMIT l OFFSET o\<close> on the rows of the file.\<close>

definition select_page :: "row list \<Rightarrow> int \<Rightarrow> int \<Rightarrow> row list" where
  "select_page rows l off = take (nat l) (drop (nat off) rows)"

definition insert_sql :: "string \<Rightarrow> string list \<Rightarrow> string" where
  "insert_sql table_name columns =
     ''INSERT INTO '' @ table_name @ '' VALUES (''
       @ join '','' (replicate (length columns) ''%s'') @ '')''"

text \<open>What the loop does with one non-empty batch: one \<^verbatim>\<open>executemany\<close>, the commit, and
  the progress message.\<close>

definition insert_batch ::
  "env \<Rightarrow> string \<Rightarrow> string list \<Rightarrow> int \<Rightarrow> int \<Rightarrow> int \<Rightarrow> row list \<Rightarrow> unit action" where
  "insert_batch E table_name columns batch_size total_rows offset batch_data =
     bind (perform E (PgExecuteMany (insert_sql table_name columns) batch_data)) (\<lambda>_.
     bind (perform E PgCommit) (\<lambda>_.
     logger_info (LoadedBatch (offset div batch_size + 1)
       (offset + int (length batch_data)) total_rows)))"

text \<open>
  The loop \<^verbatim>\<open>for offset in range(0, total_rows, batch_size)\<close>, entered at \<open>offset\<close>.
  The count is never negative, so the range is empty for a negative step; a zero step is
  refused before the loop starts (see \<open>load_data_batch_insert\<close>).
\<close>

function batch_loop ::
  "env \<Rightarrow> string \<Rightarrow> string \<Rightarrow> string list \<Rightarrow> int \<Rightarrow> int \<Rightarrow> int \<Rightarrow> unit action" where
  "batch_loop E parquet_file table_name columns batch_size total_rows offset h =
     (if 0 < batch_size \<and> offset < total_rows
      then (case perform E (DuckSelectPage parquet_file batch_size offset) h of
              (Inl e, t) \<Rightarrow> (Inl e, t)
            | (Inr u, t) \<Rightarrow>
                (let batch_data = select_page (source_rows E) batch_size offset
                 in if batch_data = [] then (Inr (), t)
                    else (case insert_batch E table_name columns batch_size total_rows
                                 offset batch_data (h @ t) of
                            (Inl e, t') \<Rightarrow> (Inl e, t @ t')
                          | (Inr u', t') \<Rightarrow>
                              (case batch_loop E parquet_file table_name columns batch_size
                                      total_rows (offset + batch_size) (h @ t @ t') of
                                 (r, t'') \<Rightarrow> (r, t @ t' @ t'')))))
      else (Inr (), []))"
  by pat_completeness auto
termination
  by (relation "measure (\<lambda>(E, p, tn, cs, b, n, off, h). nat (n - off))") auto

declare batch_loop.simps [simp del]

definition load_data_batch_insert ::
  "env \<Rightarrow> ParquetToPostgresLoader \<Rightarrow> string \<Rightarrow> string \<Rightarrow> int \<Rightarrow> unit action" where
  "load_data_batch_insert E self parquet_file table_name batch_size =
     bind (perform E DuckConnect) (\<lambda>_.
     try_finally
       (bind (perform E (DuckCount parquet_file)) (\<lambda>_.
          let total_rows = int (length (source_rows E))
          in bind (perform E (DuckDescribe parquet_file)) (\<lambda>_.
             let columns = map fst (describe_result E)
             in bind (pg_session E (pg_conn_str self)
                        (if batch_size = 0
                         then raise (ValueError ''range() arg 3 must not be zero'')
                         else batch_loop E parquet_file table_name columns batch_size
                                total_rows 0)) (\<lambda>_.
                logger_info (Completed total_rows table_name)))))
       (perform E DuckClose))"

text \<open>The loop of \<^verbatim>\<open>create_suggested_indexes\<close>; a \<^verbatim>\<open>psycopg.Error\<close> of one statement is
  passed over. The result is \<^verbatim>\<open>indexes_created\<close>.\<close>

fun index_loop :: "env \<Rightarrow> string \<Rightarrow> (string \<times> string) list \<Rightarrow> nat \<Rightarrow> nat action" where
  "index_loop E table_name [] indexes_created h = (Inr indexes_created, [])"
| "index_loop E table_name ((col_name, data_type) # columns) indexes_created h =
     (if loader_index_wanted col_name
      then (case perform E (PgCreateIndex (loader_index_statement table_name col_name)) h of
              (Inl e, t) \<Rightarrow>
                (case index_loop E table_name columns indexes_created (h @ t) of
                   (r, t') \<Rightarrow> (r, t @ t'))
            | (Inr u, t) \<Rightarrow>
                (case index_loop E table_name columns (indexes_created + 1) (h @ t) of
                   (r, t') \<Rightarrow> (r, t @ t')))
      else index_loop E table_name columns indexes_created h)"

definition create_suggested_indexes ::
  "env \<Rightarrow> ParquetToPostgresLoader \<Rightarrow> string \<Rightarrow> unit action" where
  "create_suggested_indexes E self table_name =
     pg_session E (pg_conn_str self)
       (bind (perform E (PgSelectColumns table_name)) (\<lambda>_.
        let columns = catalog_columns E
        in bind (index_loop E table_name columns 0) (\<lambda>indexes_created.
           bind (perform E PgCommit) (\<lambda>_.
           logger_info (CreatedIndexes indexes_created table_name)))))"

text \<open>The loading step of \<^verbatim>\<open>load_parquet_to_postgres\<close>; the strategies run with their
  default chunk and batch sizes.\<close>

definition load_step ::
  "env \<Rightarrow> ParquetToPostgresLoader \<Rightarrow> string \<Rightarrow> string \<Rightarrow> string \<Rightarrow> unit action" where
  "load_step E self parquet_file table_name method =
     (if method = ''direct'' then load_data_direct_duckdb E self parquet_file table_name
      else if method = ''copy'' then load_data_copy E self parquet_file table_name
      else if method = ''batch'' then load_data_batch_insert E self parquet_file table_name 10000
      else raise (ValueError (''Unknown method: '' @ method)))"

definition load_parquet_to_postgres ::
  "env \<Rightarrow> ParquetToPostgresLoader \<Rightarrow> string \<Rightarrow> string \<Rightarrow> string \<Rightarrow> bool \<Rightarrow> bool
     \<Rightarrow> unit action" where
  "load_parquet_to_postgres E self parquet_file table_name method drop_if_exists create_indexes =
     bind (logger_info (Starting parquet_file table_name)) (\<lambda>_.
     bind (create_table_from_parquet E self parquet_file table_name drop_if_exists)
       (\<lambda>create_sql.
     bind (load_step E self parquet_file table_name method) (\<lambda>_.
     bind (if create_indexes then create_suggested_indexes E self table_name
           else return ()) (\<lambda>_.
     logger_info (Succeeded parquet_file table_name)))))"

section \<open>Reading a trace\<close>

fun attempted :: "event \<Rightarrow> call option" where
  "attempted (Ok c) = Some c"
| "attempted (Failed c) = Some c"
| "attempted (Raised e) = None"
| "attempted (Info m) = None"

definition calls_of :: "event list \<Rightarrow> call list" where
  "calls_of t = List.map_filter attempted t"

text \<open>
  The stage a call belongs to. The statements that define the table are stage 1. Every
  call that only a loading strategy makes is stage 2: the extension and the attachment
  of the direct strategy and its insert, the temporary file, the export, the count and
  the copy of the copy strategy, the count, the pages and the inserts of the batch
  strategy. The query of the catalogue and the index statements are stage 3. Six calls
  are made in more than one stage and have no stage of their own: opening and closing
  the two connections, the commit, and \<^verbatim>\<open>DESCRIBE\<close>, which the batch strategy repeats
  to get the column names.
\<close>

fun stage_of :: "call \<Rightarrow> nat option" where
  "stage_of (PgDropTable tn) = Some 1"
| "stage_of (PgCreateTable sql) = Some 1"
| "stage_of DuckInstallPostgres = Some 2"
| "stage_of DuckLoadPostgres = Some 2"
| "stage_of (DuckAttach c) = Some 2"
| "stage_of (DuckInsertSelect tn p) = Some 2"
| "stage_of (TempFileCreate path) = Some 2"
| "stage_of (DuckCopyToCsv p path) = Some 2"
| "stage_of (DuckCount p) = Some 2"
| "stage_of (FileOpen path) = Some 2"
| "stage_of (PgCopyFrom tn path) = Some 2"
| "stage_of (FileUnlink path) = Some 2"
| "stage_of (DuckSelectPage p l off) = Some 2"
| "stage_of (PgExecuteMany sql rows) = Some 2"
| "stage_of (PgSelectColumns tn) = Some 3"
| "stage_of (PgCreateIndex sql) = Some 3"
| "stage_of DuckConnect = None"
| "stage_of DuckClose = None"
| "stage_of (DuckDescribe p) = None"
| "stage_of (PgConnect c) = None"
| "stage_of PgCommit = None"
| "stage_of (PgExit committed) = None"

definition stages :: "event list \<Rightarrow> nat list" where
  "stages t = List.map_filter stage_of (calls_of t)"

text \<open>
  An event that ends the run: an exception the loader raises, or a call that raises, but
  for the two whose exception the source catches (an index statement inside
  \<^verbatim>\<open>try ... except psycopg.Error: pass\<close>, the rollback at the end of a connection
  block). After it only the release of the connections may follow.
\<close>

fun fatal :: "event \<Rightarrow> bool" where
  "fatal (Failed (PgCreateIndex sql)) = False"
| "fatal (Failed (PgExit committed)) = committed"
| "fatal (Failed c) = True"
| "fatal (Raised e) = True"
| "fatal e = False"

fun is_cleanup :: "event \<Rightarrow> bool" where
  "is_cleanup (Ok (PgExit committed)) = (\<not> committed)"
| "is_cleanup (Failed (PgExit committed)) = (\<not> committed)"
| "is_cleanup (Ok DuckClose) = True"
| "is_cleanup (Failed DuckClose) = True"
| "is_cleanup e = False"

fun stops_at_failure :: "event list \<Rightarrow> bool" where
  "stops_at_failure [] = True"
| "stops_at_failure (e # es) =
     (if fatal e then list_all is_cleanup es else stops_at_failure es)"

text \<open>The batches written by \<^verbatim>\<open>executemany\<close>, in order.\<close>

fun inserted_batches :: "event list \<Rightarrow> row list list" where
  "inserted_batches [] = []"
| "inserted_batches (Ok (PgExecuteMany sql rows) # es) = rows # inserted_batches es"
| "inserted_batches (e # es) = inserted_batches es"

text \<open>The batches whose \<^verbatim>\<open>executemany\<close> is directly followed by its commit, the
  pages read from the source as (limit, offset), and the index statements sent.\<close>

fun committed_batches :: "event list \<Rightarrow> row list list" where
  "committed_batches [] = []"
| "committed_batches (Ok (PgExecuteMany sql rows) # Ok PgCommit # es)
     = rows # committed_batches es"
| "committed_batches (e # es) = committed_batches es"

fun pages :: "event list \<Rightarrow> (int \<times> int) list" where
  "pages [] = []"
| "pages (Ok (DuckSelectPage p l off) # es) = (l, off) # pages es"
| "pages (e # es) = pages es"

fun index_statements :: "event list \<Rightarrow> string list" where
  "index_statements [] = []"
| "index_statements (Ok (PgCreateIndex sql) # es) = sql # index_statements es"
| "index_statements (Failed (PgCreateIndex sql) # es) = sql # index_statements es"
| "index_statements (e # es) = index_statements es"

section \<open>What the specification says of batches\<close>

text \<open>
  A list cut into batches of a fixed size: every batch has that size, but possibly the
  last. This follows the words of the specification, not the loop of the source; the two
  are compared below.
\<close>

function chunks :: "nat \<Rightarrow> 'a list \<Rightarrow> 'a list list" where
  "chunks k xs = (if k = 0 \<or> xs = [] then [] else take k xs # chunks k (drop k xs))"
  by pat_completeness auto
termination
  by (relation "measure (\<lambda>(k, xs). length xs)") auto

declare chunks.simps [simp del]

section \<open>Predicates on actions used in the proofs\<close>

text \<open>
  \<open>emits S m\<close>: the stage calls of \<open>m\<close> all belong to the stages \<open>S\<close>. \<open>ordered m\<close>: the
  stage calls of \<open>m\<close> come in the order of the stages. \<open>halts m\<close>: once \<open>m\<close> has met a
  fatal event it only releases connections, and it does not return normally.
  \<open>batches_as_chunked\<close> is the statement proved of the batch loop by induction when no
  call raises, \<open>batches_when_returned\<close> the one proved of a loop that returned normally,
  whatever raised elsewhere.
\<close>

definition emits :: "nat set \<Rightarrow> 'a action \<Rightarrow> bool" where
  "emits S m = (\<forall>h. set (stages (snd (m h))) \<subseteq> S)"

definition ordered :: "'a action \<Rightarrow> bool" where
  "ordered m = (\<forall>h. sorted (stages (snd (m h))))"

definition halts :: "'a action \<Rightarrow> bool" where
  "halts m = (\<forall>h. stops_at_failure (snd (m h)) \<and> (list_ex fatal (snd (m h)) \<longrightarrow> isl (fst (m h))))"

definition batches_as_chunked ::
  "env \<Rightarrow> int \<Rightarrow> int \<Rightarrow> int \<Rightarrow> (exn + unit) \<Rightarrow> event list \<Rightarrow> bool" where
  "batches_as_chunked E b n off r t =
     ((\<forall>h c. \<not> fails E h c) \<longrightarrow> n = int (length (source_rows E)) \<longrightarrow> 0 \<le> off \<longrightarrow>
        r = Inr ()
        \<and> inserted_batches t = chunks (nat b) (drop (nat off) (source_rows E))
        \<and> (\<forall>s. committed_batches (t @ s)
                 = chunks (nat b) (drop (nat off) (source_rows E)) @ committed_batches s)
        \<and> pages t = map (\<lambda>k. (b, off + int k * b))
                       [0..<length (chunks (nat b) (drop (nat off) (source_rows E)))])"

definition batches_when_returned ::
  "env \<Rightarrow> int \<Rightarrow> int \<Rightarrow> int \<Rightarrow> (exn + unit) \<Rightarrow> event list \<Rightarrow> bool" where
  "batches_when_returned E b n off r t =
     (r = Inr () \<longrightarrow> n = int (length (source_rows E)) \<longrightarrow> 0 \<le> off \<longrightarrow>
        inserted_batches t = chunks (nat b) (drop (nat off) (source_rows E)))"

section \<open>Example runs\<close>

text \<open>
  The inputs of the runs on which the theorem on the workflow is instantiated: a file
  \<^verbatim>\<open>trips.parquet\<close> of two columns and two rows, loaded into the table \<^verbatim>\<open>trips\<close>. The
  environment is given the behaviour of the collaborators. With \<open>table_exists tn\<close> the
  table \<open>tn\<close> is there before the run: \<^verbatim>\<open>CREATE TABLE\<close> raises unless the table was
  dropped before, and no other call raises. With \<open>failing c\<close> the call \<open>c\<close> raises and no
  other does.
\<close>

definition trips_env :: "(event list \<Rightarrow> call \<Rightarrow> bool) \<Rightarrow> env" where
  "trips_env f =
     \<lparr>fails = f,
      describe_result = [(''VendorID'', ''INTEGER''), (''tpep_pickup_datetime'', ''TIMESTAMP'')],
      source_rows = [[''1'', ''2024-01-01 00:00:00''], [''2'', ''2024-01-01 00:05:00'']],
      temp_name = ''/tmp/tmpq1.csv'',
      catalog_columns = [(''vendorid'', ''integer''),
                         (''tpep_pickup_datetime'', ''timestamp without time zone'')]\<rparr>"

definition trips_loader :: ParquetToPostgresLoader where
  "trips_loader = \<lparr>pg_conn_str = ''postgresql://u@h/db''\<rparr>"

definition table_exists :: "string \<Rightarrow> event list \<Rightarrow> call \<Rightarrow> bool" where
  "table_exists tn h c =
     (case c of PgCreateTable sql \<Rightarrow> Ok (PgDropTable tn) \<notin> set h | _ \<Rightarrow> False)"

definition failing :: "call \<Rightarrow> event list \<Rightarrow> call \<Rightarrow> bool" where
  "failing c0 h c = (c = c0)"

section \<open>Properties of the string operations\<close>


lemma str_find_single:
  "c \<in> set s \<Longrightarrow> str_find s [c] = int (length (takeWhile (\<lambda>x. x \<noteq> c) s))"
  by (induction s) (auto simp: Let_def)

lemma slice_from_find:
  "c \<in> set s \<Longrightarrow> slice_from s (str_find s [c]) = dropWhile (\<lambda>x. x \<noteq> c) s"
  by (simp add: str_find_single slice_from_def dropWhile_eq_drop)

lemma split_first_slice_from:
  "c \<in> set s \<Longrightarrow> split_first c s @ slice_from s (str_find s [c]) = s"
  by (simp add: slice_from_find split_first_def)

section \<open>Type mapping\<close>


























lemma duckdb_param_keys:
  "map_of DUCKDB_TO_POSTGRES ''DECIMAL'' \<noteq> None"
  "map_of DUCKDB_TO_POSTGRES ''NUMERIC'' \<noteq> None"
  "map_of DUCKDB_TO_POSTGRES ''VARCHAR'' \<noteq> None"
  "map_of DUCKDB_TO_POSTGRES ''CHAR'' \<noteq> None"
  by code_simp+

lemma duckdb_unknown_not_param:
  "map_of DUCKDB_TO_POSTGRES b = None
     \<Longrightarrow> b \<notin> set [''DECIMAL'', ''NUMERIC'', ''VARCHAR'', ''CHAR'']"
  using duckdb_param_keys by auto

lemma map_duckdb_type_unknown:
  assumes "map_of DUCKDB_TO_POSTGRES (split_first CHR ''('' (str_upper t)) = None"
  shows "map_duckdb_type self t = t"
  unfolding map_duckdb_type_def Let_def dict_get_def
  by (simp only: assms duckdb_unknown_not_param[OF assms] option.case simp_thms if_False)

lemma pandas_type_unknown:
  assumes "map_of DUCKDB_TO_POSTGRES (str_upper u) = None"
  shows "column_postgres_type self ''pandas'' u = u"
proof -
  have "''pandas'' \<noteq> ''duckdb''" "''pandas'' \<noteq> ''arrow''"
    by simp_all
  then show ?thesis
    unfolding column_postgres_type_def dict_get_def
    by (simp only: assms option.case if_False)
qed

lemma map_arrow_type_unknown:
  assumes "\<not> startswith v ''timestamp''" "\<not> startswith v ''decimal''"
    and "map_of ARROW_TO_POSTGRES (split_first CHR ''['' v) = None"
  shows "map_arrow_type self v = ''TEXT''"
  unfolding map_arrow_type_def Let_def dict_get_def
  by (simp only: assms option.case if_False)

lemma text_maps_to_text: "dict_get DUCKDB_TO_POSTGRES (str_upper ''TEXT'') ''TEXT'' = ''TEXT''"
  by code_simp

lemma standardize_dtype_unknown:
  assumes "\<not> str_contains ''int'' w" "\<not> str_contains ''float'' w" "\<not> str_contains ''bool'' w"
    "\<not> str_contains ''datetime'' w" "\<not> str_contains ''object'' w"
  shows "standardize_dtype w = ''TEXT''
       \<and> column_postgres_type self ''pandas'' (standardize_dtype w) = ''TEXT''"
proof -
  from assms have s: "standardize_dtype w = ''TEXT''"
    unfolding standardize_dtype_def by (simp only: if_False)
  have "''pandas'' \<noteq> ''duckdb''" "''pandas'' \<noteq> ''arrow''"
    by simp_all
  then have "column_postgres_type self ''pandas'' ''TEXT'' = ''TEXT''"
    unfolding column_postgres_type_def by (simp only: if_False text_maps_to_text)
  with s show ?thesis by (simp only: simp_thms)
qed

text \<open>
  Claim C2, as the code has it. The three mappers are functions of the token with no
  failing branch. A DuckDB token whose upper-cased base type is not a key of the table is
  returned unchanged, and so is a token that reaches the pandas branch of
  \<open>generate_create_table\<close> with an upper-cased text that is not a key. An Arrow token
  that starts neither with timestamp nor with decimal and whose base type (the text
  before the first bracket) is not a key of the Arrow table is mapped to the default
  TEXT. A pandas dtype that matches none of the patterns of \<open>from_pandas_dataframe\<close> is
  standardised to TEXT before it reaches the pandas branch, and stays TEXT.
\<close>

theorem unknown_type_token:
  "(map_of DUCKDB_TO_POSTGRES (split_first CHR ''('' (str_upper t)) = None
      \<longrightarrow> map_duckdb_type self t = t \<and> column_postgres_type self ''duckdb'' t = t)
   \<and> (map_of DUCKDB_TO_POSTGRES (str_upper u) = None
      \<longrightarrow> column_postgres_type self ''pandas'' u = u)
   \<and> (\<not> startswith v ''timestamp'' \<and> \<not> startswith v ''decimal''
        \<and> map_of ARROW_TO_POSTGRES (split_first CHR ''['' v) = None
      \<longrightarrow> map_arrow_type self v = ''TEXT'' \<and> column_postgres_type self ''arrow'' v = ''TEXT'')
   \<and> (\<not> str_contains ''int'' w \<and> \<not> str_contains ''float'' w \<and> \<not> str_contains ''bool'' w
        \<and> \<not> str_contains ''datetime'' w \<and> \<not> str_contains ''object'' w
      \<longrightarrow> standardize_dtype w = ''TEXT''
          \<and> column_postgres_type self ''pandas'' (standardize_dtype w) = ''TEXT'')"
proof (intro conjI impI)
  assume "map_of DUCKDB_TO_POSTGRES (split_first CHR ''('' (str_upper t)) = None"
  then show "map_duckdb_type self t = t"
    by (rule map_duckdb_type_unknown)
  then show "column_postgres_type self ''duckdb'' t = t"
    by (simp add: column_postgres_type_def)
next
  assume "map_of DUCKDB_TO_POSTGRES (str_upper u) = None"
  then show "column_postgres_type self ''pandas'' u = u"
    by (rule pandas_type_unknown)
next
  assume "\<not> startswith v ''timestamp'' \<and> \<not> startswith v ''decimal''
        \<and> map_of ARROW_TO_POSTGRES (split_first CHR ''['' v) = None"
  then show a: "map_arrow_type self v = ''TEXT''"
    by (simp add: map_arrow_type_unknown)
  then show "column_postgres_type self ''arrow'' v = ''TEXT''"
    by (simp add: column_postgres_type_def)
next
  assume w: "\<not> str_contains ''int'' w \<and> \<not> str_contains ''float'' w \<and> \<not> str_contains ''bool'' w
        \<and> \<not> str_contains ''datetime'' w \<and> \<not> str_contains ''object'' w"
  then show "standardize_dtype w = ''TEXT''"
    using standardize_dtype_unknown[of w self] by blast
  from w show "column_postgres_type self ''pandas'' (standardize_dtype w) = ''TEXT''"
    using standardize_dtype_unknown[of w self] by blast
qed

theorem unknown_type_token_witness:
  "map_of DUCKDB_TO_POSTGRES (split_first CHR ''('' (str_upper ''HUGEINT'')) = None
   \<and> map_duckdb_type \<lparr>lowercase_columns = False\<rparr> ''HUGEINT'' = ''HUGEINT''
   \<and> map_of DUCKDB_TO_POSTGRES (str_upper ''INTERVAL'') = None
   \<and> column_postgres_type \<lparr>lowercase_columns = False\<rparr> ''pandas'' ''INTERVAL'' = ''INTERVAL''
   \<and> \<not> startswith ''list<item: int32>'' ''timestamp''
   \<and> \<not> startswith ''list<item: int32>'' ''decimal''
   \<and> map_of ARROW_TO_POSTGRES (split_first CHR ''['' ''list<item: int32>'') = None
   \<and> map_arrow_type \<lparr>lowercase_columns = False\<rparr> ''list<item: int32>'' = ''TEXT''
   \<and> \<not> str_contains ''int'' ''category'' \<and> \<not> str_contains ''float'' ''category''
   \<and> \<not> str_contains ''bool'' ''category'' \<and> \<not> str_contains ''datetime'' ''category''
   \<and> \<not> str_contains ''object'' ''category''
   \<and> column_postgres_type \<lparr>lowercase_columns = False\<rparr> ''pandas'' (standardize_dtype ''category'')
       = ''TEXT''"
proof -
  have h1: "map_of DUCKDB_TO_POSTGRES (split_first CHR ''('' (str_upper ''HUGEINT'')) = None"
    by code_simp
  have h2: "map_of DUCKDB_TO_POSTGRES (str_upper ''INTERVAL'') = None"
    by code_simp
  have h3: "\<not> startswith ''list<item: int32>'' ''timestamp''
      \<and> \<not> startswith ''list<item: int32>'' ''decimal''
      \<and> map_of ARROW_TO_POSTGRES (split_first CHR ''['' ''list<item: int32>'') = None"
    by code_simp
  have h4: "\<not> str_contains ''int'' ''category'' \<and> \<not> str_contains ''float'' ''category''
      \<and> \<not> str_contains ''bool'' ''category'' \<and> \<not> str_contains ''datetime'' ''category''
      \<and> \<not> str_contains ''object'' ''category''"
    by code_simp
  note inst = unknown_type_token
    [of "''HUGEINT''" "\<lparr>lowercase_columns = False\<rparr>" "''INTERVAL''" "''list<item: int32>''"
        "''category''"]
  from inst h1 have c1: "map_duckdb_type \<lparr>lowercase_columns = False\<rparr> ''HUGEINT'' = ''HUGEINT''"
    by blast
  from inst h2 have c2:
    "column_postgres_type \<lparr>lowercase_columns = False\<rparr> ''pandas'' ''INTERVAL'' = ''INTERVAL''"
    by blast
  from inst h3 have c3:
    "map_arrow_type \<lparr>lowercase_columns = False\<rparr> ''list<item: int32>'' = ''TEXT''"
    by blast
  from inst h4 have c4:
    "column_postgres_type \<lparr>lowercase_columns = False\<rparr> ''pandas'' (standardize_dtype ''category'')
       = ''TEXT''"
    by blast
  from h1 h2 h3 h4 c1 c2 c3 c4 show ?thesis
    by (simp only: simp_thms)
qed

text \<open>
  The claim as the specification words it fails on the Arrow mapper: the base type of
  \<^verbatim>\<open>list<item: int32>\<close> is not in the Arrow table, and the token is replaced by TEXT.
\<close>

theorem arrow_unknown_counterexample:
  "map_of ARROW_TO_POSTGRES (split_first CHR ''['' ''list<item: int32>'') = None
   \<and> map_arrow_type \<lparr>lowercase_columns = False\<rparr> ''list<item: int32>'' = ''TEXT''
   \<and> map_arrow_type \<lparr>lowercase_columns = False\<rparr> ''list<item: int32>'' \<noteq> ''list<item: int32>''"
  by code_simp

section \<open>The generated statement\<close>

text \<open>
  Claim C8. For the schema VendorID INTEGER, tpep_pickup_datetime TIMESTAMP, fare_amount
  DOUBLE read from DuckDB, the statement has three column lines, in the order of the
  schema, with the types INTEGER, TIMESTAMP and DOUBLE PRECISION, between the opening
  line and the closing parenthesis, and nothing else: no constraint and no key. With
  \<open>lowercase_columns\<close> set the first name is written in lower case.
\<close>

theorem taxi_schema_create_table:
  "column_definitions \<lparr>lowercase_columns = False\<rparr>
      [''VendorID'', ''tpep_pickup_datetime'', ''fare_amount'']
      [''INTEGER'', ''TIMESTAMP'', ''DOUBLE''] ''duckdb''
     = [''    VendorID INTEGER'',
        ''    tpep_pickup_datetime TIMESTAMP'',
        ''    fare_amount DOUBLE PRECISION'']
   \<and> generate_create_table \<lparr>lowercase_columns = False\<rparr>
      [''VendorID'', ''tpep_pickup_datetime'', ''fare_amount'']
      [''INTEGER'', ''TIMESTAMP'', ''DOUBLE''] table_name ''duckdb''
     = ''CREATE TABLE '' @ table_name @ '' ('' @ newline
        @ ''    VendorID INTEGER,'' @ newline
        @ ''    tpep_pickup_datetime TIMESTAMP,'' @ newline
        @ ''    fare_amount DOUBLE PRECISION'' @ newline @ '');''
   \<and> generate_create_table \<lparr>lowercase_columns = True\<rparr>
      [''VendorID'', ''tpep_pickup_datetime'', ''fare_amount'']
      [''INTEGER'', ''TIMESTAMP'', ''DOUBLE''] table_name ''duckdb''
     = ''CREATE TABLE '' @ table_name @ '' ('' @ newline
        @ ''    vendorid INTEGER,'' @ newline
        @ ''    tpep_pickup_datetime TIMESTAMP,'' @ newline
        @ ''    fare_amount DOUBLE PRECISION'' @ newline @ '');''"
  by code_simp

lemma zip_min_take:
  "zip (take (min (length xs) (length ys)) xs) (take (min (length xs) (length ys)) ys)
     = zip xs ys"
  by (simp add: take_zip[symmetric])

text \<open>
  Claim C10. \<open>generate_create_table\<close> has no failing branch, whatever the lengths of the
  two lists. It writes one column line per pair of \<^verbatim>\<open>zip(columns, dtypes)\<close>, that is the
  smaller of the two lengths, and the statement is the one obtained from the two lists cut
  to that length: the entries of the longer list beyond it leave no trace.
\<close>

theorem create_table_zip_truncates:
  "length (column_definitions self columns dtypes source_type)
     = min (length columns) (length dtypes)
   \<and> generate_create_table self columns dtypes table_name source_type
     = ''CREATE TABLE '' @ table_name @ '' ('' @ newline
        @ join ('','' @ newline) (column_definitions self columns dtypes source_type)
        @ newline @ '');''
   \<and> generate_create_table self columns dtypes table_name source_type
     = generate_create_table self
         (take (min (length columns) (length dtypes)) columns)
         (take (min (length columns) (length dtypes)) dtypes) table_name source_type"
  by (simp add: generate_create_table_def column_definitions_def zip_min_take)

section \<open>Traces of the combinators\<close>

lemma calls_of_append: "calls_of (xs @ ys) = calls_of xs @ calls_of ys"
  by (simp add: calls_of_def map_filter_def)

lemma stages_append [simp]: "stages (xs @ ys) = stages xs @ stages ys"
  by (simp add: stages_def calls_of_append map_filter_def)

lemma stages_Nil [simp]: "stages [] = []"
  by (simp add: stages_def calls_of_def map_filter_def)

lemma stages_Cons [simp]:
  "stages (Ok c # es) = (case stage_of c of None \<Rightarrow> stages es | Some k \<Rightarrow> k # stages es)"
  "stages (Failed c # es) = (case stage_of c of None \<Rightarrow> stages es | Some k \<Rightarrow> k # stages es)"
  "stages (Raised e # es) = stages es"
  "stages (Info m # es) = stages es"
  by (simp_all add: stages_def calls_of_def map_filter_def split: option.splits)

lemma emitsD: "emits S m \<Longrightarrow> m h = (r, t) \<Longrightarrow> set (stages t) \<subseteq> S"
  unfolding emits_def by (metis snd_conv)

lemma emitsI: "(\<And>h r t. m h = (r, t) \<Longrightarrow> set (stages t) \<subseteq> S) \<Longrightarrow> emits S m"
  unfolding emits_def by (metis prod.collapse)

lemma emits_return: "emits S (return x)"
  by (simp add: emits_def return_def)

lemma emits_raise: "emits S (raise e)"
  by (simp add: emits_def raise_def)

lemma emits_logger_info: "emits S (logger_info m)"
  by (simp add: emits_def logger_info_def)

lemma emits_perform:
  "stage_of c = None \<or> (\<exists>k\<in>S. stage_of c = Some k) \<Longrightarrow> emits S (perform E c)"
  by (auto simp: emits_def perform_def)

lemma emits_bind:
  assumes "emits S m" and "\<And>x. emits S (f x)"
  shows "emits S (bind m f)"
proof (rule emitsI)
  fix h r t
  assume run: "bind m f h = (r, t)"
  obtain r1 t1 where m: "m h = (r1, t1)" by (cases "m h")
  note s1 = emitsD[OF assms(1) m]
  show "set (stages t) \<subseteq> S"
  proof (cases r1)
    case (Inl e)
    with run m s1 show ?thesis by (simp add: bind_def)
  next
    case (Inr x)
    obtain r2 t2 where f: "f x (h @ t1) = (r2, t2)" by (cases "f x (h @ t1)")
    note s2 = emitsD[OF assms(2) f]
    from run m Inr f s1 s2 show ?thesis by (auto simp: bind_def)
  qed
qed

lemma emits_try_finally:
  assumes "emits S body" and "emits S fin"
  shows "emits S (try_finally body fin)"
proof (rule emitsI)
  fix h r t
  assume run: "try_finally body fin h = (r, t)"
  obtain r1 t1 where b: "body h = (r1, t1)" by (cases "body h")
  obtain r2 t2 where f: "fin (h @ t1) = (r2, t2)" by (cases "fin (h @ t1)")
  note s1 = emitsD[OF assms(1) b] and s2 = emitsD[OF assms(2) f]
  from run b f s1 s2 show "set (stages t) \<subseteq> S"
    by (cases r2) (auto simp: try_finally_def)
qed

lemma emits_pg_session:
  assumes "emits S body"
  shows "emits S (pg_session E conn body)"
proof (rule emitsI)
  fix h r t
  assume run: "pg_session E conn body h = (r, t)"
  show "set (stages t) \<subseteq> S"
  proof (cases "fails E h (PgConnect conn)")
    case True
    with run show ?thesis by (auto simp: pg_session_def perform_def)
  next
    case False
    obtain r1 t1 where b: "body (h @ [Ok (PgConnect conn)]) = (r1, t1)"
      by (cases "body (h @ [Ok (PgConnect conn)])")
    note s1 = emitsD[OF assms b]
    from run False b s1 show ?thesis
      by (cases r1) (auto simp: pg_session_def perform_def split: if_splits)
  qed
qed

lemmas emits_intros = emits_return emits_raise emits_logger_info emits_perform emits_bind
  emits_try_finally emits_pg_session

lemma emits_create_table:
  "emits {1} (create_table_from_parquet E self p tn d)"
  unfolding create_table_from_parquet_def Let_def
  by (intro emits_intros) (simp_all add: emits_intros)

lemma emits_direct: "emits {2} (load_data_direct_duckdb E self p tn)"
  unfolding load_data_direct_duckdb_def
  by (intro emits_intros) (simp_all add: emits_intros)

lemma emits_copy: "emits {2} (load_data_copy E self p tn)"
  unfolding load_data_copy_def Let_def
  by (intro emits_intros) (simp_all add: emits_intros)

lemma batch_loop_done:
  "\<not> (0 < b \<and> off < n) \<Longrightarrow> batch_loop E p tn cs b n off h = (Inr (), [])"
  by (subst batch_loop.simps) auto

lemma batch_loop_page_fails:
  "0 < b \<Longrightarrow> off < n \<Longrightarrow> fails E h (DuckSelectPage p b off)
     \<Longrightarrow> batch_loop E p tn cs b n off h
         = (Inl (CallError (DuckSelectPage p b off)), [Failed (DuckSelectPage p b off)])"
  by (subst batch_loop.simps) (simp add: perform_def)

lemma batch_loop_empty:
  "0 < b \<Longrightarrow> off < n \<Longrightarrow> \<not> fails E h (DuckSelectPage p b off)
     \<Longrightarrow> select_page (source_rows E) b off = []
     \<Longrightarrow> batch_loop E p tn cs b n off h = (Inr (), [Ok (DuckSelectPage p b off)])"
  by (subst batch_loop.simps) (simp add: perform_def)

lemma batch_loop_insert_fails:
  "0 < b \<Longrightarrow> off < n \<Longrightarrow> \<not> fails E h (DuckSelectPage p b off)
     \<Longrightarrow> select_page (source_rows E) b off \<noteq> []
     \<Longrightarrow> insert_batch E tn cs b n off (select_page (source_rows E) b off)
           (h @ [Ok (DuckSelectPage p b off)]) = (Inl e, t1)
     \<Longrightarrow> batch_loop E p tn cs b n off h = (Inl e, Ok (DuckSelectPage p b off) # t1)"
  by (subst batch_loop.simps) (simp add: perform_def)

lemma batch_loop_next:
  "0 < b \<Longrightarrow> off < n \<Longrightarrow> \<not> fails E h (DuckSelectPage p b off)
     \<Longrightarrow> select_page (source_rows E) b off \<noteq> []
     \<Longrightarrow> insert_batch E tn cs b n off (select_page (source_rows E) b off)
           (h @ [Ok (DuckSelectPage p b off)]) = (Inr u, t1)
     \<Longrightarrow> batch_loop E p tn cs b n (off + b) (h @ Ok (DuckSelectPage p b off) # t1) = (r, t2)
     \<Longrightarrow> batch_loop E p tn cs b n off h = (r, Ok (DuckSelectPage p b off) # t1 @ t2)"
  by (subst batch_loop.simps) (simp add: perform_def)

text \<open>An induction rule for the loop that follows its five exits.\<close>

lemma batch_loop_cases [case_names finished page_fails empty_page insert_fails continue]:
  assumes "\<And>E p tn cs b n off h. \<not> (0 < b \<and> off < n) \<Longrightarrow> P E p tn cs b n off h (Inr ()) []"
    and "\<And>E p tn cs b n off h. 0 < b \<Longrightarrow> off < n \<Longrightarrow> fails E h (DuckSelectPage p b off)
          \<Longrightarrow> P E p tn cs b n off h (Inl (CallError (DuckSelectPage p b off)))
                [Failed (DuckSelectPage p b off)]"
    and "\<And>E p tn cs b n off h. 0 < b \<Longrightarrow> off < n \<Longrightarrow> \<not> fails E h (DuckSelectPage p b off)
          \<Longrightarrow> select_page (source_rows E) b off = []
          \<Longrightarrow> P E p tn cs b n off h (Inr ()) [Ok (DuckSelectPage p b off)]"
    and "\<And>E p tn cs b n off h e t1. 0 < b \<Longrightarrow> off < n
          \<Longrightarrow> \<not> fails E h (DuckSelectPage p b off)
          \<Longrightarrow> select_page (source_rows E) b off \<noteq> []
          \<Longrightarrow> insert_batch E tn cs b n off (select_page (source_rows E) b off)
                (h @ [Ok (DuckSelectPage p b off)]) = (Inl e, t1)
          \<Longrightarrow> P E p tn cs b n off h (Inl e) (Ok (DuckSelectPage p b off) # t1)"
    and "\<And>E p tn cs b n off h u t1 r t2. 0 < b \<Longrightarrow> off < n
          \<Longrightarrow> \<not> fails E h (DuckSelectPage p b off)
          \<Longrightarrow> select_page (source_rows E) b off \<noteq> []
          \<Longrightarrow> insert_batch E tn cs b n off (select_page (source_rows E) b off)
                (h @ [Ok (DuckSelectPage p b off)]) = (Inr u, t1)
          \<Longrightarrow> batch_loop E p tn cs b n (off + b) (h @ Ok (DuckSelectPage p b off) # t1) = (r, t2)
          \<Longrightarrow> P E p tn cs b n (off + b) (h @ Ok (DuckSelectPage p b off) # t1) r t2
          \<Longrightarrow> P E p tn cs b n off h r (Ok (DuckSelectPage p b off) # t1 @ t2)"
  shows "P E p tn cs b n off h (fst (batch_loop E p tn cs b n off h))
           (snd (batch_loop E p tn cs b n off h))"
proof (induction E p tn cs b n off h rule: batch_loop.induct)
  case (1 E p tn cs b n off h)
  let ?page = "DuckSelectPage p b off"
  let ?batch = "select_page (source_rows E) b off"
  show ?case
  proof (cases "0 < b \<and> off < n")
    case False
    then show ?thesis using assms(1) by (simp add: batch_loop_done)
  next
    case True
    show ?thesis
    proof (cases "fails E h ?page")
      case f: True
      with True show ?thesis using assms(2) by (simp add: batch_loop_page_fails)
    next
      case nf: False
      show ?thesis
      proof (cases "?batch = []")
        case e: True
        with True nf show ?thesis using assms(3) by (simp add: batch_loop_empty)
      next
        case ne: False
        obtain r1 t1 where body:
          "insert_batch E tn cs b n off ?batch (h @ [Ok ?page]) = (r1, t1)"
          by (cases "insert_batch E tn cs b n off ?batch (h @ [Ok ?page])")
        show ?thesis
        proof (cases r1)
          case (Inl e)
          with True nf ne body show ?thesis
            using assms(4) by (simp add: batch_loop_insert_fails)
        next
          case (Inr u)
          obtain r t2 where rest:
            "batch_loop E p tn cs b n (off + b) (h @ Ok ?page # t1) = (r, t2)"
            by (cases "batch_loop E p tn cs b n (off + b) (h @ Ok ?page # t1)")
          have ih: "P E p tn cs b n (off + b) (h @ Ok ?page # t1) r t2"
            using "1.IH"[of "Inr ()" "[Ok ?page]" "()" ?batch r1 t1 u] True nf ne body Inr rest
            by (simp add: perform_def)
          from True nf ne body Inr rest
          have "batch_loop E p tn cs b n off h = (r, Ok ?page # t1 @ t2)"
            by (simp add: batch_loop_next)
          moreover from True nf ne body Inr rest ih
          have "P E p tn cs b n off h r (Ok ?page # t1 @ t2)"
            using assms(5) by blast
          ultimately show ?thesis by simp
        qed
      qed
    qed
  qed
qed

lemma emits_insert_batch: "emits {2} (insert_batch E tn cs b n off batch)"
  unfolding insert_batch_def
  by (intro emits_intros) (simp_all add: emits_intros)

lemma stages_batch_loop:
  "set (stages (snd (batch_loop E p tn cs b n off h))) \<subseteq> {2}"
proof (induction rule: batch_loop_cases)
  case (insert_fails E p tn cs b n off h e t1)
  then show ?case using emitsD[OF emits_insert_batch] by fastforce
next
  case (continue E p tn cs b n off h u t1 r t2)
  then show ?case using emitsD[OF emits_insert_batch] by fastforce
qed simp_all

lemma emits_batch_loop: "emits {2} (batch_loop E p tn cs b n off)"
  by (simp add: emits_def stages_batch_loop)

lemma stages_index_loop:
  "set (stages (snd (index_loop E tn cols k h))) \<subseteq> {3}"
proof (induction E tn cols k h rule: index_loop.induct)
  case (1 E tn k h)
  then show ?case by simp
next
  case (2 E tn col_name data_type cols k h)
  then show ?case
    by (auto simp: perform_def split: prod.splits if_splits)
qed

lemma emits_index_loop: "emits {3} (index_loop E tn cols k)"
  by (simp add: emits_def stages_index_loop)

lemma emits_batch: "emits {2} (load_data_batch_insert E self p tn b)"
  unfolding load_data_batch_insert_def Let_def
  by (intro emits_intros) (simp_all add: emits_intros emits_batch_loop)

lemma emits_indexes: "emits {3} (create_suggested_indexes E self tn)"
  unfolding create_suggested_indexes_def Let_def
  by (intro emits_intros) (simp_all add: emits_intros emits_index_loop)

lemma emits_load_step: "emits {2} (load_step E self p tn m)"
  unfolding load_step_def
  by (simp add: emits_direct emits_copy emits_batch emits_raise)


section \<open>A failure ends the run\<close>

lemma stops_at_failure_append:
  "stops_at_failure (xs @ ys)
     = (if list_ex fatal xs then stops_at_failure xs \<and> list_all is_cleanup ys
        else stops_at_failure ys)"
  by (induction xs) auto

lemma haltsD:
  "halts m \<Longrightarrow> m h = (r, t) \<Longrightarrow> stops_at_failure t \<and> (list_ex fatal t \<longrightarrow> isl r)"
  unfolding halts_def by (metis fst_conv snd_conv)

lemma haltsI:
  "(\<And>h r t. m h = (r, t) \<Longrightarrow> stops_at_failure t \<and> (list_ex fatal t \<longrightarrow> isl r)) \<Longrightarrow> halts m"
  unfolding halts_def by (metis prod.collapse)

lemma halts_return: "halts (return x)"
  by (simp add: halts_def return_def)

lemma halts_raise: "halts (raise e)"
  by (simp add: halts_def raise_def)

lemma halts_logger_info: "halts (logger_info m)"
  by (simp add: halts_def logger_info_def)

lemma halts_perform: "halts (perform E c)"
  by (simp add: halts_def perform_def)

lemma halts_bind:
  assumes "halts m" and "\<And>x. halts (f x)"
  shows "halts (bind m f)"
proof (rule haltsI)
  fix h r t
  assume run: "bind m f h = (r, t)"
  obtain r1 t1 where m: "m h = (r1, t1)" by (cases "m h")
  note s1 = haltsD[OF assms(1) m]
  show "stops_at_failure t \<and> (list_ex fatal t \<longrightarrow> isl r)"
  proof (cases r1)
    case (Inl e)
    with run m s1 show ?thesis by (auto simp: bind_def)
  next
    case (Inr x)
    obtain r2 t2 where f: "f x (h @ t1) = (r2, t2)" by (cases "f x (h @ t1)")
    note s2 = haltsD[OF assms(2) f]
    from run m Inr f s1 s2 show ?thesis
      by (auto simp: bind_def stops_at_failure_append)
  qed
qed

lemma halts_try_finally:
  assumes "halts body"
  shows "halts (try_finally body (perform E DuckClose))"
proof (rule haltsI)
  fix h r t
  assume run: "try_finally body (perform E DuckClose) h = (r, t)"
  obtain r1 t1 where b: "body h = (r1, t1)" by (cases "body h")
  note s1 = haltsD[OF assms b]
  from run b s1 show "stops_at_failure t \<and> (list_ex fatal t \<longrightarrow> isl r)"
    by (auto simp: try_finally_def perform_def stops_at_failure_append split: if_splits)
qed

lemma halts_pg_session:
  assumes "halts body"
  shows "halts (pg_session E conn body)"
proof (rule haltsI)
  fix h r t
  assume run: "pg_session E conn body h = (r, t)"
  show "stops_at_failure t \<and> (list_ex fatal t \<longrightarrow> isl r)"
  proof (cases "fails E h (PgConnect conn)")
    case True
    with run show ?thesis by (auto simp: pg_session_def perform_def)
  next
    case False
    obtain r1 t1 where b: "body (h @ [Ok (PgConnect conn)]) = (r1, t1)"
      by (cases "body (h @ [Ok (PgConnect conn)])")
    note s1 = haltsD[OF assms b]
    from run False b s1 show ?thesis
      by (cases r1)
        (auto simp: pg_session_def perform_def stops_at_failure_append split: if_splits)
  qed
qed

lemmas halts_intros = halts_return halts_raise halts_logger_info halts_perform halts_bind
  halts_try_finally halts_pg_session

lemma halts_insert_batch: "halts (insert_batch E tn cs b n off batch)"
  unfolding insert_batch_def by (intro halts_intros)

lemma halts_batch_loop_aux:
  "stops_at_failure (snd (batch_loop E p tn cs b n off h))
   \<and> (list_ex fatal (snd (batch_loop E p tn cs b n off h))
        \<longrightarrow> isl (fst (batch_loop E p tn cs b n off h)))"
proof -
  have "(\<lambda>E p tn cs b n off h r t. stops_at_failure t \<and> (list_ex fatal t \<longrightarrow> isl r))
          E p tn cs b n off h (fst (batch_loop E p tn cs b n off h))
          (snd (batch_loop E p tn cs b n off h))"
  proof (induction rule: batch_loop_cases)
    case (insert_fails E p tn cs b n off h e t1)
    then show ?case using haltsD[OF halts_insert_batch] by fastforce
  next
    case (continue E p tn cs b n off h u t1 r t2)
    from haltsD[OF halts_insert_batch continue(5)] continue(7)
    show ?case
      using stops_at_failure_append[of "Ok (DuckSelectPage p b off) # t1" t2]
      by auto
  qed simp_all
  then show ?thesis by simp
qed

lemma halts_batch_loop: "halts (batch_loop E p tn cs b n off)"
  unfolding halts_def using halts_batch_loop_aux by blast

lemma index_loop_no_fatal:
  "\<not> list_ex fatal (snd (index_loop E tn cols k h))"
proof (induction E tn cols k h rule: index_loop.induct)
  case (1 E tn k h)
  then show ?case by simp
next
  case (2 E tn col_name data_type cols k h)
  then show ?case
    by (auto simp: perform_def split: prod.splits if_splits)
qed

lemma stops_no_fatal: "\<not> list_ex fatal t \<Longrightarrow> stops_at_failure t"
  by (induction t) auto

lemma halts_index_loop: "halts (index_loop E tn cols k)"
  unfolding halts_def using index_loop_no_fatal stops_no_fatal by blast

lemma halts_create_table: "halts (create_table_from_parquet E self p tn d)"
  unfolding create_table_from_parquet_def Let_def
  by (intro halts_intros) (simp_all add: halts_intros)

lemma halts_direct: "halts (load_data_direct_duckdb E self p tn)"
  unfolding load_data_direct_duckdb_def
  by (intro halts_intros) (simp_all add: halts_intros)

lemma halts_copy: "halts (load_data_copy E self p tn)"
  unfolding load_data_copy_def Let_def
  by (intro halts_intros)

lemma halts_batch: "halts (load_data_batch_insert E self p tn b)"
  unfolding load_data_batch_insert_def Let_def
  by (intro halts_intros) (simp_all add: halts_intros halts_batch_loop)

lemma halts_indexes: "halts (create_suggested_indexes E self tn)"
  unfolding create_suggested_indexes_def Let_def
  by (intro halts_intros halts_index_loop)

lemma halts_load_step: "halts (load_step E self p tn m)"
  unfolding load_step_def
  by (simp add: halts_direct halts_copy halts_batch halts_raise)

lemma halts_workflow: "halts (load_parquet_to_postgres E self p tn m d ci)"
  unfolding load_parquet_to_postgres_def
  by (intro halts_intros halts_create_table halts_load_step)
     (simp_all add: halts_intros halts_indexes)


section \<open>The workflow: order of the stages\<close>

lemma perform_cases:
  "perform E c h = (r, t) \<Longrightarrow>
     (fails E h c \<and> r = Inl (CallError c) \<and> t = [Failed c])
     \<or> (\<not> fails E h c \<and> r = Inr () \<and> t = [Ok c])"
  by (auto simp: perform_def split: if_splits)

lemma create_table_success:
  assumes "create_table_from_parquet E self p tn d h = (Inr sql, t)"
  shows "t = [Ok DuckConnect, Ok (DuckDescribe p), Ok (PgConnect (pg_conn_str self))]
           @ (if d then [Ok (PgDropTable tn)] else [])
           @ [Ok (PgCreateTable (loader_create_sql (describe_result E) tn)), Ok PgCommit,
              Ok (PgExit True), Info (CreatedTable tn), Ok DuckClose]"
  using assms
  unfolding create_table_from_parquet_def Let_def
  by (auto simp: bind_def try_finally_def pg_session_def perform_def return_def logger_info_def
           split: if_splits prod.splits sum.splits)

lemma create_table_error:
  assumes "create_table_from_parquet E self p tn d h = (Inl e, t)"
  shows "\<exists>c. e = CallError c \<and> Failed c \<in> set t"
  using assms
  unfolding create_table_from_parquet_def Let_def
  by (auto simp: bind_def try_finally_def pg_session_def perform_def return_def logger_info_def
           split: if_splits prod.splits sum.splits)

lemma create_table_describe_first:
  assumes "create_table_from_parquet E self p tn d h = (r, t)"
  shows "(\<exists>rest. t = Ok DuckConnect # Ok (DuckDescribe p) # rest)
         \<or> (isl r \<and> stages t = [] \<and> Ok (DuckDescribe p) \<notin> set t)"
  using assms
  unfolding create_table_from_parquet_def Let_def
  by (auto simp: bind_def try_finally_def perform_def
           split: if_splits prod.splits sum.splits)

lemma sorted_const: "set xs \<subseteq> {k::nat} \<Longrightarrow> sorted xs"
  by (induction xs) auto

lemma cleanup_no_stage: "list_all is_cleanup es \<Longrightarrow> stages es = []"
proof (induction es)
  case Nil
  then show ?case by simp
next
  case (Cons e es)
  then show ?case by (cases e rule: is_cleanup.cases) auto
qed

lemma failed_stage_mem:
  "Failed c \<in> set t \<Longrightarrow> stage_of c = Some k \<Longrightarrow> k \<in> set (stages t)"
proof (induction t)
  case Nil
  then show ?case by simp
next
  case (Cons e es)
  then show ?case by (cases e) (auto split: option.splits)
qed

lemma cleanup_failed_no_stage:
  "list_all is_cleanup es \<Longrightarrow> Failed c \<in> set es \<Longrightarrow> stage_of c = None"
proof (induction es)
  case Nil
  then show ?case by simp
next
  case (Cons e es)
  then show ?case by (cases e rule: is_cleanup.cases) auto
qed

lemma nothing_later_than_failed_stage:
  assumes "sorted (stages t)" and "stops_at_failure t"
    and "Failed c \<in> set t" and "fatal (Failed c)" and "stage_of c = Some k"
  shows "\<forall>j\<in>set (stages t). j \<le> k"
  using assms
proof (induction t)
  case Nil
  then show ?case by simp
next
  case (Cons e es)
  show ?case
  proof (cases "fatal e")
    case True
    with Cons.prems have cl: "list_all is_cleanup es" by simp
    then have none: "stages es = []" by (rule cleanup_no_stage)
    show ?thesis
    proof (cases "e = Failed c")
      case True
      with none Cons.prems show ?thesis by simp
    next
      case False
      with Cons.prems have "Failed c \<in> set es" by simp
      with cl have "stage_of c = None" by (rule cleanup_failed_no_stage)
      with Cons.prems show ?thesis by simp
    qed
  next
    case False
    with Cons.prems have mem: "Failed c \<in> set es" by auto
    from False Cons.prems have st: "stops_at_failure es" by simp
    have split: "stages (e # es) = stages [e] @ stages es"
      using stages_append[of "[e]" es] by simp
    with Cons.prems have so: "sorted (stages es)"
      by (simp add: sorted_append)
    from Cons.IH[OF so st mem Cons.prems(4,5)] have ih: "\<forall>j\<in>set (stages es). j \<le> k" .
    from failed_stage_mem[OF mem Cons.prems(5)] have kin: "k \<in> set (stages es)" .
    from Cons.prems(1) split kin have "\<forall>j\<in>set (stages [e]). j \<le> k"
      by (auto simp: sorted_append)
    with ih split show ?thesis by auto
  qed
qed

lemma orderedD: "ordered m \<Longrightarrow> m h = (r, t) \<Longrightarrow> sorted (stages t)"
  unfolding ordered_def by (metis snd_conv)

lemma emits_ordered: "emits {k} m \<Longrightarrow> ordered m"
  unfolding ordered_def emits_def using sorted_const by blast

lemma emits_mono: "emits S m \<Longrightarrow> S \<subseteq> T \<Longrightarrow> emits T m"
  unfolding emits_def by blast

lemma ordered_bind:
  assumes "emits S m" and "\<And>x. emits T (f x)" and "ordered m" and "\<And>x. ordered (f x)"
    and "\<forall>a\<in>S. \<forall>b\<in>T. a \<le> b"
  shows "ordered (bind m f)"
  unfolding ordered_def
proof
  fix h
  obtain r1 t1 where m: "m h = (r1, t1)" by (cases "m h")
  note s1 = emitsD[OF assms(1) m] and o1 = orderedD[OF assms(3) m]
  show "sorted (stages (snd (bind m f h)))"
  proof (cases r1)
    case (Inl e)
    with m o1 show ?thesis by (simp add: bind_def)
  next
    case (Inr x)
    obtain r2 t2 where f: "f x (h @ t1) = (r2, t2)" by (cases "f x (h @ t1)")
    note s2 = emitsD[OF assms(2) f] and o2 = orderedD[OF assms(4) f]
    from s1 s2 assms(5) have "\<forall>a\<in>set (stages t1). \<forall>b\<in>set (stages t2). a \<le> b"
      by blast
    with m Inr f o1 o2 show ?thesis
      by (simp add: bind_def sorted_append)
  qed
qed

lemma emits_index_step:
  "emits {3} (bind (if ci then create_suggested_indexes E self tn else return ())
      (\<lambda>_. logger_info (Succeeded p tn)))"
  by (intro emits_intros) (simp_all add: emits_intros emits_indexes)

lemma emits_after_create:
  "emits {2, 3} (bind (load_step E self p tn m) (\<lambda>_.
      bind (if ci then create_suggested_indexes E self tn else return ())
        (\<lambda>_. logger_info (Succeeded p tn))))"
  by (intro emits_bind emits_mono[OF emits_load_step] emits_mono[OF emits_index_step]) simp_all

lemma ordered_after_create:
  "ordered (bind (load_step E self p tn m) (\<lambda>_.
      bind (if ci then create_suggested_indexes E self tn else return ())
        (\<lambda>_. logger_info (Succeeded p tn))))"
proof (rule ordered_bind[where S = "{2}" and T = "{3}"])
  show "emits {2} (load_step E self p tn m)"
    by (rule emits_load_step)
  show "ordered (load_step E self p tn m)"
    by (rule emits_ordered[OF emits_load_step])
  show "\<forall>a\<in>{2}. \<forall>b\<in>{3::nat}. a \<le> b"
    by simp
next
  fix x :: unit
  show "emits {3} (bind (if ci then create_suggested_indexes E self tn else return ())
        (\<lambda>_. logger_info (Succeeded p tn)))"
    by (rule emits_index_step)
  then show "ordered (bind (if ci then create_suggested_indexes E self tn else return ())
        (\<lambda>_. logger_info (Succeeded p tn)))"
    by (rule emits_ordered)
qed

lemma emits_after_schema:
  "emits {1, 2, 3} (bind (create_table_from_parquet E self p tn d) (\<lambda>create_sql.
      bind (load_step E self p tn m) (\<lambda>_.
      bind (if ci then create_suggested_indexes E self tn else return ())
        (\<lambda>_. logger_info (Succeeded p tn)))))"
  by (intro emits_bind emits_mono[OF emits_create_table] emits_mono[OF emits_after_create])
     simp_all

lemma ordered_after_schema:
  "ordered (bind (create_table_from_parquet E self p tn d) (\<lambda>create_sql.
      bind (load_step E self p tn m) (\<lambda>_.
      bind (if ci then create_suggested_indexes E self tn else return ())
        (\<lambda>_. logger_info (Succeeded p tn)))))"
proof (rule ordered_bind[where S = "{1}" and T = "{2, 3}"])
  show "emits {1} (create_table_from_parquet E self p tn d)"
    by (rule emits_create_table)
  then show "ordered (create_table_from_parquet E self p tn d)"
    by (rule emits_ordered)
  show "\<forall>a\<in>{1}. \<forall>b\<in>{2, 3::nat}. a \<le> b"
    by simp
next
  fix x :: string
  show "emits {2, 3} (bind (load_step E self p tn m) (\<lambda>_.
      bind (if ci then create_suggested_indexes E self tn else return ())
        (\<lambda>_. logger_info (Succeeded p tn))))"
    by (rule emits_after_create)
  show "ordered (bind (load_step E self p tn m) (\<lambda>_.
      bind (if ci then create_suggested_indexes E self tn else return ())
        (\<lambda>_. logger_info (Succeeded p tn))))"
    by (rule ordered_after_create)
qed

lemma ordered_workflow: "ordered (load_parquet_to_postgres E self p tn m d ci)"
  unfolding load_parquet_to_postgres_def
proof (rule ordered_bind[where S = "{}" and T = "{1, 2, 3}"])
  show "emits {} (logger_info (Starting p tn))"
    by (rule emits_logger_info)
  show "ordered (logger_info (Starting p tn))"
    by (simp add: ordered_def logger_info_def)
  show "\<forall>a\<in>{}. \<forall>b\<in>{1, 2, 3::nat}. a \<le> b"
    by simp
next
  fix x :: unit
  show "emits {1, 2, 3} (bind (create_table_from_parquet E self p tn d) (\<lambda>create_sql.
      bind (load_step E self p tn m) (\<lambda>_.
      bind (if ci then create_suggested_indexes E self tn else return ())
        (\<lambda>_. logger_info (Succeeded p tn)))))"
    by (rule emits_after_schema)
  show "ordered (bind (create_table_from_parquet E self p tn d) (\<lambda>create_sql.
      bind (load_step E self p tn m) (\<lambda>_.
      bind (if ci then create_suggested_indexes E self tn else return ())
        (\<lambda>_. logger_info (Succeeded p tn)))))"
    by (rule ordered_after_schema)
qed

lemma workflow_create_fails:
  assumes "create_table_from_parquet E self p tn d (h @ [Info (Starting p tn)]) = (Inl e, t1)"
  shows "load_parquet_to_postgres E self p tn m d ci h = (Inl e, Info (Starting p tn) # t1)"
  using assms by (simp add: load_parquet_to_postgres_def bind_def logger_info_def)

lemma workflow_load_fails:
  assumes "create_table_from_parquet E self p tn d (h @ [Info (Starting p tn)]) = (Inr sql, t1)"
    and "load_step E self p tn m (h @ Info (Starting p tn) # t1) = (Inl e, t2)"
  shows "load_parquet_to_postgres E self p tn m d ci h
           = (Inl e, Info (Starting p tn) # t1 @ t2)"
  using assms by (simp add: load_parquet_to_postgres_def bind_def logger_info_def)

lemma workflow_loaded:
  assumes "create_table_from_parquet E self p tn d (h @ [Info (Starting p tn)]) = (Inr sql, t1)"
    and "load_step E self p tn m (h @ Info (Starting p tn) # t1) = (Inr u, t2)"
  shows "\<exists>t3. snd (load_parquet_to_postgres E self p tn m d ci h)
           = Info (Starting p tn) # t1 @ t2 @ t3"
  using assms
  by (simp add: load_parquet_to_postgres_def bind_def logger_info_def split: prod.splits sum.splits)

lemma workflow_prefix:
  assumes "create_table_from_parquet E self p tn d (h @ [Info (Starting p tn)]) = (r1, t1)"
  shows "\<exists>X. snd (load_parquet_to_postgres E self p tn m d ci h)
           = Info (Starting p tn) # t1 @ X \<and> (isl r1 \<longrightarrow> X = [])"
proof (cases r1)
  case (Inl e)
  with assms show ?thesis by (simp add: workflow_create_fails)
next
  case (Inr sql)
  obtain r2 t2 where l: "load_step E self p tn m (h @ Info (Starting p tn) # t1) = (r2, t2)"
    by (cases "load_step E self p tn m (h @ Info (Starting p tn) # t1)")
  show ?thesis
  proof (cases r2)
    case (Inl e)
    with assms Inr l show ?thesis by (simp add: workflow_load_fails)
  next
    case r2: (Inr u)
    from workflow_loaded[OF assms[unfolded Inr] l[unfolded r2]] Inr show ?thesis
      by auto
  qed
qed

lemma schema_read_first:
  "stages (takeWhile (\<lambda>e. e \<noteq> Ok (DuckDescribe p))
             (snd (load_parquet_to_postgres E self p tn m d ci h))) = []"
proof -
  obtain r1 t1 where c: "create_table_from_parquet E self p tn d (h @ [Info (Starting p tn)]) = (r1, t1)"
    by (cases "create_table_from_parquet E self p tn d (h @ [Info (Starting p tn)])")
  from workflow_prefix[OF c] obtain X where
    t: "snd (load_parquet_to_postgres E self p tn m d ci h) = Info (Starting p tn) # t1 @ X"
    and x: "isl r1 \<longrightarrow> X = []"
    by blast
  from create_table_describe_first[OF c] show ?thesis
  proof
    assume "\<exists>rest. t1 = Ok DuckConnect # Ok (DuckDescribe p) # rest"
    with t show ?thesis by auto
  next
    assume a: "isl r1 \<and> stages t1 = [] \<and> Ok (DuckDescribe p) \<notin> set t1"
    with x have xnil: "X = []" by simp
    from a have tw: "takeWhile (\<lambda>e. e \<noteq> Ok (DuckDescribe p)) t1 = t1"
      by (auto simp: takeWhile_eq_all_conv)
    have "takeWhile (\<lambda>e. e \<noteq> Ok (DuckDescribe p)) (Info (Starting p tn) # t1)
        = Info (Starting p tn) # takeWhile (\<lambda>e. e \<noteq> Ok (DuckDescribe p)) t1"
      by simp
    then have "takeWhile (\<lambda>e. e \<noteq> Ok (DuckDescribe p)) (Info (Starting p tn) # t1)
        = Info (Starting p tn) # t1"
      by (simp only: tw)
    moreover from a have "stages (Info (Starting p tn) # t1) = []"
      by simp
    ultimately show ?thesis
      unfolding t xnil append_Nil2 by (simp only:)
  qed
qed


section \<open>The batch strategy\<close>

lemma chunks_Nil [simp]: "chunks k [] = []"
  by (simp add: chunks.simps)

lemma chunks_step: "0 < k \<Longrightarrow> xs \<noteq> [] \<Longrightarrow> chunks k xs = take k xs # chunks k (drop k xs)"
  by (subst chunks.simps) simp

lemma concat_chunks: "0 < k \<Longrightarrow> concat (chunks k xs) = xs"
proof (induction k xs rule: chunks.induct)
  case (1 k xs)
  show ?case
  proof (cases "xs = []")
    case True
    then show ?thesis by simp
  next
    case False
    with 1 show ?thesis by (simp add: chunks_step)
  qed
qed

lemma div_add_divisor: "0 < (k::nat) \<Longrightarrow> (a + k) div k = Suc (a div k)"
  using div_add_self2[of k a] by simp

lemma ceil_div_step:
  assumes "0 < k" and "k \<le> (n::nat)"
  shows "(n + k - 1) div k = Suc ((n - k + k - 1) div k)"
proof -
  from assms have a: "n + k - 1 = (n - 1) + k" by arith
  from assms have b: "n - k + k - 1 = n - 1" by arith
  show ?thesis
    unfolding a b by (rule div_add_divisor[OF assms(1)])
qed

lemma ceil_div_small:
  assumes "0 < n" and "n < (k::nat)"
  shows "(n + k - 1) div k = 1"
proof -
  from assms have a: "n + k - 1 = (n - 1) + k" by arith
  from assms have "0 < k" by arith
  from div_add_divisor[OF this, of "n - 1"] have "(n - 1 + k) div k = Suc ((n - 1) div k)" .
  moreover from assms have "(n - 1) div k = 0" by simp
  ultimately show ?thesis
    unfolding a by (simp only: One_nat_def)
qed

lemma length_chunks: "0 < k \<Longrightarrow> length (chunks k xs) = (length xs + k - 1) div k"
proof (induction k xs rule: chunks.induct)
  case (1 k xs)
  show ?case
  proof (cases "xs = []")
    case True
    with 1 show ?thesis by simp
  next
    case False
    then have pos: "0 < length xs" by simp
    from 1 False have ih: "length (chunks k (drop k xs)) = (length xs - k + k - 1) div k"
      by simp
    show ?thesis
    proof (cases "k \<le> length xs")
      case True
      from ceil_div_step[OF 1(2) True] 1(2) False ih show ?thesis
        by (simp add: chunks_step)
    next
      case small: False
      then have "drop k xs = []" by simp
      moreover from small pos have "(length xs + k - 1) div k = 1"
        by (intro ceil_div_small) simp_all
      ultimately show ?thesis using 1(2) False by (simp add: chunks_step)
    qed
  qed
qed

lemma map_length_chunks:
  "0 < k \<Longrightarrow> map length (chunks k xs)
     = replicate (length xs div k) k @ (if length xs mod k = 0 then [] else [length xs mod k])"
proof (induction k xs rule: chunks.induct)
  case (1 k xs)
  show ?case
  proof (cases "xs = []")
    case True
    with 1 show ?thesis by simp
  next
    case False
    show ?thesis
    proof (cases "k \<le> length xs")
      case True
      then have d: "length xs div k = Suc ((length xs - k) div k)"
        using 1(2) by (simp add: le_div_geq)
      from True have m: "length xs mod k = (length xs - k) mod k"
        by (simp add: le_mod_geq)
      from 1 False have "map length (chunks k (drop k xs))
          = replicate ((length xs - k) div k) k
            @ (if (length xs - k) mod k = 0 then [] else [(length xs - k) mod k])"
        by simp
      with 1(2) False True d m show ?thesis
        by (simp add: chunks_step)
    next
      case small: False
      then have "drop k xs = []" by simp
      with 1(2) False small show ?thesis
        by (simp add: chunks_step)
    qed
  qed
qed

lemma chunks_zero [simp]: "chunks 0 xs = []"
  by (simp add: chunks.simps)

lemma inserted_batches_append:
  "inserted_batches (xs @ ys) = inserted_batches xs @ inserted_batches ys"
  by (induction xs rule: inserted_batches.induct) simp_all

lemma pages_append: "pages (xs @ ys) = pages xs @ pages ys"
  by (induction xs rule: pages.induct) simp_all

lemma insert_batch_ok:
  assumes "\<forall>h c. \<not> fails E h c"
  shows "insert_batch E tn cs b n off batch h
     = (Inr (), [Ok (PgExecuteMany (insert_sql tn cs) batch), Ok PgCommit,
                 Info (LoadedBatch (off div b + 1) (off + int (length batch)) n)])"
  using assms by (simp add: insert_batch_def bind_def perform_def logger_info_def)

lemma batch_loop_chunked:
  "batches_as_chunked E b n off (fst (batch_loop E p tn cs b n off h))
     (snd (batch_loop E p tn cs b n off h))"
proof -
  have "(\<lambda>E p tn cs b n off h r t. batches_as_chunked E b n off r t)
          E p tn cs b n off h (fst (batch_loop E p tn cs b n off h))
          (snd (batch_loop E p tn cs b n off h))"
  proof (induction rule: batch_loop_cases)
    case (finished E p tn cs b n off h)
    show ?case
      unfolding batches_as_chunked_def
    proof (intro impI)
      assume n: "n = int (length (source_rows E))" and off: "0 \<le> off"
      from finished n off have "nat b = 0 \<or> drop (nat off) (source_rows E) = []"
        by auto
      then have "chunks (nat b) (drop (nat off) (source_rows E)) = []"
        by auto
      then show "Inr () = Inr ()
        \<and> inserted_batches [] = chunks (nat b) (drop (nat off) (source_rows E))
        \<and> (\<forall>s. committed_batches ([] @ s)
                 = chunks (nat b) (drop (nat off) (source_rows E)) @ committed_batches s)
        \<and> pages [] = map (\<lambda>k. (b, off + int k * b))
                       [0..<length (chunks (nat b) (drop (nat off) (source_rows E)))]"
        by simp
    qed
  next
    case (page_fails E p tn cs b n off h)
    then show ?case by (auto simp: batches_as_chunked_def)
  next
    case (empty_page E p tn cs b n off h)
    then show ?case by (auto simp: batches_as_chunked_def select_page_def)
  next
    case (insert_fails E p tn cs b n off h e t1)
    then show ?case by (auto simp: batches_as_chunked_def insert_batch_ok)
  next
    case (continue E p tn cs b n off h u t1 r t2)
    let ?rows = "source_rows E"
    let ?batch = "select_page ?rows b off"
    show ?case
      unfolding batches_as_chunked_def
    proof (intro impI)
      assume nf: "\<forall>h c. \<not> fails E h c" and n: "n = int (length ?rows)" and off: "0 \<le> off"
      from continue(5) insert_batch_ok[OF nf]
      have t1: "t1 = [Ok (PgExecuteMany (insert_sql tn cs) ?batch), Ok PgCommit,
                      Info (LoadedBatch (off div b + 1) (off + int (length ?batch)) n)]"
        by simp
      from continue(1) off have off': "0 \<le> off + b" by simp
      from continue(7) nf n off'
      have ih: "r = Inr ()"
        "inserted_batches t2 = chunks (nat b) (drop (nat (off + b)) ?rows)"
        "\<And>s. committed_batches (t2 @ s)
               = chunks (nat b) (drop (nat (off + b)) ?rows) @ committed_batches s"
        "pages t2 = map (\<lambda>k. (b, off + b + int k * b))
                       [0..<length (chunks (nat b) (drop (nat (off + b)) ?rows))]"
        by (simp_all add: batches_as_chunked_def)
      from continue(1) off have nn: "nat (off + b) = nat off + nat b"
        by (simp add: nat_add_distrib)
      from continue(2) n off have ne: "drop (nat off) ?rows \<noteq> []"
        by simp
      from continue(1) have kpos: "0 < nat b" by simp
      have dd: "drop (nat b) (drop (nat off) ?rows) = drop (nat (off + b)) ?rows"
        unfolding nn by (simp add: add.commute)
      have ch: "chunks (nat b) (drop (nat off) ?rows)
          = ?batch # chunks (nat b) (drop (nat (off + b)) ?rows)"
        using chunks_step[OF kpos ne] unfolding dd select_page_def .
      have pg: "map (\<lambda>k. (b, off + int k * b))
                  [0..<Suc (length (chunks (nat b) (drop (nat (off + b)) ?rows)))]
          = (b, off) # map (\<lambda>k. (b, off + b + int k * b))
                  [0..<length (chunks (nat b) (drop (nat (off + b)) ?rows))]"
        by (simp add: map_upt_Suc algebra_simps del: upt_Suc)
      show "r = Inr ()
        \<and> inserted_batches (Ok (DuckSelectPage p b off) # t1 @ t2)
            = chunks (nat b) (drop (nat off) ?rows)
        \<and> (\<forall>s. committed_batches ((Ok (DuckSelectPage p b off) # t1 @ t2) @ s)
                 = chunks (nat b) (drop (nat off) ?rows) @ committed_batches s)
        \<and> pages (Ok (DuckSelectPage p b off) # t1 @ t2)
            = map (\<lambda>k. (b, off + int k * b))
                [0..<length (chunks (nat b) (drop (nat off) ?rows))]"
        using ih pg by (simp add: t1 ch del: upt_Suc)
    qed
  qed
  then show ?thesis by simp
qed

lemma batch_insert_no_failure:
  assumes nf: "\<forall>h c. \<not> fails E h c" and pos: "0 < B"
  shows "\<exists>tl. batch_loop E p tn (map fst (describe_result E)) B (int (length (source_rows E))) 0
              (h @ [Ok DuckConnect, Ok (DuckCount p), Ok (DuckDescribe p),
                    Ok (PgConnect (pg_conn_str self))]) = (Inr (), tl)
          \<and> load_data_batch_insert E self p tn B h
            = (Inr (), [Ok DuckConnect, Ok (DuckCount p), Ok (DuckDescribe p),
                        Ok (PgConnect (pg_conn_str self))] @ tl
                       @ [Ok (PgExit True), Info (Completed (int (length (source_rows E))) tn),
                          Ok DuckClose])"
proof -
  let ?h = "h @ [Ok DuckConnect, Ok (DuckCount p), Ok (DuckDescribe p),
                    Ok (PgConnect (pg_conn_str self))]"
  let ?loop = "batch_loop E p tn (map fst (describe_result E)) B (int (length (source_rows E))) 0 ?h"
  obtain r tl where l: "?loop = (r, tl)" by (cases ?loop)
  from batch_loop_chunked[of E B "int (length (source_rows E))" 0 p tn
      "map fst (describe_result E)" ?h] nf l
  have "r = Inr ()" by (simp add: batches_as_chunked_def)
  with l have l': "?loop = (Inr (), tl)" by simp
  from nf pos l' have "load_data_batch_insert E self p tn B h
            = (Inr (), [Ok DuckConnect, Ok (DuckCount p), Ok (DuckDescribe p),
                        Ok (PgConnect (pg_conn_str self))] @ tl
                       @ [Ok (PgExit True), Info (Completed (int (length (source_rows E))) tn),
                          Ok DuckClose])"
    by (simp add: load_data_batch_insert_def Let_def bind_def try_finally_def pg_session_def
          perform_def logger_info_def)
  with l' show ?thesis by blast
qed

text \<open>
  Claim C6. When no call fails and the batch size \<open>B\<close> is positive,
  \<open>load_data_batch_insert\<close> returns normally; it reads the pages (limit \<open>B\<close>, offset
  \<open>0, B, 2B, \<dots>\<close>), one per batch; the batches it inserts are the source cut into batches
  of size \<open>B\<close>, each inserted by one \<^verbatim>\<open>executemany\<close> directly followed by its commit;
  there are \<open>\<lceil>N/B\<rceil>\<close> of them, all of size \<open>B\<close> but possibly the last; together they are
  the rows of the source; and the last message reports \<open>N\<close> rows. For 25000 rows and
  batches of 10000 the committed batches have the sizes 10000, 10000 and 5000, and the
  total reported is 25000.
\<close>

theorem batch_insert_batches:
  assumes "\<forall>h c. \<not> fails E h c" and "0 < B"
  shows "let run = load_data_batch_insert E self p tn B h;
             t = snd run;
             N = length (source_rows E);
             k = nat B
         in fst run = Inr ()
            \<and> pages t = map (\<lambda>i. (B, int i * B)) [0..<(N + k - 1) div k]
            \<and> inserted_batches t = chunks k (source_rows E)
            \<and> committed_batches t = inserted_batches t
            \<and> length (committed_batches t) = (N + k - 1) div k
            \<and> map length (committed_batches t)
                = replicate (N div k) k @ (if N mod k = 0 then [] else [N mod k])
            \<and> concat (committed_batches t) = source_rows E
            \<and> Info (Completed (int N) tn) \<in> set t
            \<and> (N = 25000 \<and> B = 10000
                 \<longrightarrow> map length (committed_batches t) = [10000, 10000, 5000]
                     \<and> Info (Completed 25000 tn) \<in> set t)"
proof -
  let ?rows = "source_rows E"
  let ?N = "length ?rows"
  let ?k = "nat B"
  let ?pre = "[Ok DuckConnect, Ok (DuckCount p), Ok (DuckDescribe p),
               Ok (PgConnect (pg_conn_str self))]"
  let ?post = "[Ok (PgExit True), Info (Completed (int ?N) tn), Ok DuckClose]"
  from assms(2) have kpos: "0 < ?k" by simp
  from batch_insert_no_failure[OF assms, of p tn h self] obtain tl where
    loop: "batch_loop E p tn (map fst (describe_result E)) B (int ?N) 0 (h @ ?pre) = (Inr (), tl)"
    and run: "load_data_batch_insert E self p tn B h = (Inr (), ?pre @ tl @ ?post)"
    by blast
  from batch_loop_chunked[of E B "int ?N" 0 p tn "map fst (describe_result E)" "h @ ?pre"]
    assms(1) loop
  have ins: "inserted_batches tl = chunks ?k ?rows"
    and com: "\<And>s. committed_batches (tl @ s) = chunks ?k ?rows @ committed_batches s"
    and pg: "pages tl = map (\<lambda>i. (B, int i * B)) [0..<length (chunks ?k ?rows)]"
    by (simp_all add: batches_as_chunked_def)
  have t_ins: "inserted_batches (?pre @ tl @ ?post) = chunks ?k ?rows"
    using ins by (simp add: inserted_batches_append)
  have t_com: "committed_batches (?pre @ tl @ ?post) = chunks ?k ?rows"
    using com[of ?post] by simp
  have t_pg: "pages (?pre @ tl @ ?post) = map (\<lambda>i. (B, int i * B)) [0..<(?N + ?k - 1) div ?k]"
    using pg by (simp add: pages_append length_chunks[OF kpos])
  have t_done: "Info (Completed (int ?N) tn) \<in> set (?pre @ tl @ ?post)"
    by simp
  have sizes: "map length (chunks ?k ?rows)
      = replicate (?N div ?k) ?k @ (if ?N mod ?k = 0 then [] else [?N mod ?k])"
    by (rule map_length_chunks[OF kpos])
  have scen: "?N = 25000 \<and> B = 10000 \<longrightarrow> map length (chunks ?k ?rows) = [10000, 10000, 5000]"
  proof
    assume a: "?N = 25000 \<and> B = 10000"
    then have "?k = 10000" by simp
    with a sizes show "map length (chunks ?k ?rows) = [10000, 10000, 5000]"
      by (simp add: numeral_2_eq_2)
  qed
  show ?thesis
    unfolding Let_def run fst_conv snd_conv t_ins t_com
    using t_pg t_done sizes scen length_chunks[OF kpos, of ?rows] concat_chunks[OF kpos, of ?rows]
    by (intro conjI) (simp_all only: simp_thms, auto)
qed

theorem batch_insert_batches_witness:
  "(\<forall>h c. \<not> fails \<lparr>fails = (\<lambda>h c. False), describe_result = [(''id'', ''INTEGER'')],
        source_rows = replicate 25000 [''1''], temp_name = ''/tmp/tmpq1.csv'',
        catalog_columns = []\<rparr> h c)
   \<and> (0::int) < 10000
   \<and> fst (load_data_batch_insert
        \<lparr>fails = (\<lambda>h c. False), describe_result = [(''id'', ''INTEGER'')],
         source_rows = replicate 25000 [''1''], temp_name = ''/tmp/tmpq1.csv'',
         catalog_columns = []\<rparr>
        \<lparr>pg_conn_str = ''postgresql://u@h/db''\<rparr> ''trips.parquet'' ''trips'' 10000 []) = Inr ()
   \<and> map length (committed_batches (snd (load_data_batch_insert
        \<lparr>fails = (\<lambda>h c. False), describe_result = [(''id'', ''INTEGER'')],
         source_rows = replicate 25000 [''1''], temp_name = ''/tmp/tmpq1.csv'',
         catalog_columns = []\<rparr>
        \<lparr>pg_conn_str = ''postgresql://u@h/db''\<rparr> ''trips.parquet'' ''trips'' 10000 [])))
      = [10000, 10000, 5000]
   \<and> Info (Completed 25000 ''trips'') \<in> set (snd (load_data_batch_insert
        \<lparr>fails = (\<lambda>h c. False), describe_result = [(''id'', ''INTEGER'')],
         source_rows = replicate 25000 [''1''], temp_name = ''/tmp/tmpq1.csv'',
         catalog_columns = []\<rparr>
        \<lparr>pg_conn_str = ''postgresql://u@h/db''\<rparr> ''trips.parquet'' ''trips'' 10000 []))"
proof -
  let ?E = "\<lparr>fails = (\<lambda>h c. False), describe_result = [(''id'', ''INTEGER'')],
        source_rows = replicate 25000 [''1''], temp_name = ''/tmp/tmpq1.csv'',
        catalog_columns = []\<rparr>"
  have h1: "\<forall>h c. \<not> fails ?E h c" by simp
  have h2: "(0::int) < 10000" by simp
  have n: "length (source_rows ?E) = 25000" by simp
  let ?run = "load_data_batch_insert ?E \<lparr>pg_conn_str = ''postgresql://u@h/db''\<rparr>
      ''trips.parquet'' ''trips'' 10000 []"
  note inst = batch_insert_batches[OF h1 h2, of "\<lparr>pg_conn_str = ''postgresql://u@h/db''\<rparr>"
      "''trips.parquet''" "''trips''" "[]", unfolded Let_def]
  from inst have r: "fst ?run = Inr ()"
    by (rule conjunct1)
  from inst have "length (source_rows ?E) = 25000 \<and> (10000::int) = 10000
      \<longrightarrow> map length (committed_batches (snd ?run)) = [10000, 10000, 5000]
          \<and> Info (Completed 25000 ''trips'') \<in> set (snd ?run)"
    by blast
  with n have sc: "map length (committed_batches (snd ?run)) = [10000, 10000, 5000]
      \<and> Info (Completed 25000 ''trips'') \<in> set (snd ?run)"
    by blast
  from h1 h2 r sc show ?thesis
    by (intro conjI) (simp_all only: simp_thms)
qed


section \<open>An unknown method\<close>

lemma load_step_unknown:
  assumes "m \<notin> set [''direct'', ''copy'', ''batch'']"
  shows "load_step E self p tn m h
     = (Inl (ValueError (''Unknown method: '' @ m)),
        [Raised (ValueError (''Unknown method: '' @ m))])"
  using assms by (simp add: load_step_def raise_def)

text \<open>
  Claim C9. With a method other than direct, copy and batch, \<open>load_parquet_to_postgres\<close>
  never returns normally. It raises the \<^verbatim>\<open>ValueError\<close> for the unknown method exactly when
  \<open>create_table_from_parquet\<close> has returned, and then the run is: the schema read, the
  \<^verbatim>\<open>CREATE TABLE\<close> (after the \<^verbatim>\<open>DROP\<close> when asked for), its commit, the end of the
  connection, and only then the exception; no row was transferred.
\<close>

theorem unknown_method_after_create_table:
  assumes "m \<notin> set [''direct'', ''copy'', ''batch'']"
  shows "let run = load_parquet_to_postgres E self p tn m d ci h;
             c1 = create_table_from_parquet E self p tn d (h @ [Info (Starting p tn)]);
             created = [Ok DuckConnect, Ok (DuckDescribe p), Ok (PgConnect (pg_conn_str self))]
               @ (if d then [Ok (PgDropTable tn)] else [])
               @ [Ok (PgCreateTable (loader_create_sql (describe_result E) tn)), Ok PgCommit,
                  Ok (PgExit True), Info (CreatedTable tn), Ok DuckClose]
         in isl (fst run)
            \<and> (fst run = Inl (ValueError (''Unknown method: '' @ m))) = (\<not> isl (fst c1))
            \<and> (fst run = Inl (ValueError (''Unknown method: '' @ m))
                 \<longrightarrow> snd run = Info (Starting p tn) # created
                                 @ [Raised (ValueError (''Unknown method: '' @ m))])"
proof -
  obtain r1 t1 where c: "create_table_from_parquet E self p tn d (h @ [Info (Starting p tn)]) = (r1, t1)"
    by (cases "create_table_from_parquet E self p tn d (h @ [Info (Starting p tn)])")
  show ?thesis
  proof (cases r1)
    case (Inl e)
    with c create_table_error[of E self p tn d "h @ [Info (Starting p tn)]" e t1]
    obtain c' where e: "e = CallError c'" by blast
    from c Inl have "load_parquet_to_postgres E self p tn m d ci h
        = (Inl e, Info (Starting p tn) # t1)"
      by (simp add: workflow_create_fails)
    with c Inl e show ?thesis by (simp add: Let_def)
  next
    case (Inr sql)
    from c Inr create_table_success[of E self p tn d "h @ [Info (Starting p tn)]" sql t1]
    have t1: "t1 = [Ok DuckConnect, Ok (DuckDescribe p), Ok (PgConnect (pg_conn_str self))]
               @ (if d then [Ok (PgDropTable tn)] else [])
               @ [Ok (PgCreateTable (loader_create_sql (describe_result E) tn)), Ok PgCommit,
                  Ok (PgExit True), Info (CreatedTable tn), Ok DuckClose]"
      by simp
    from c Inr load_step_unknown[OF assms]
    have "load_parquet_to_postgres E self p tn m d ci h
        = (Inl (ValueError (''Unknown method: '' @ m)),
           Info (Starting p tn) # t1 @ [Raised (ValueError (''Unknown method: '' @ m))])"
      by (simp add: workflow_load_fails)
    with c Inr t1 show ?thesis by (simp add: Let_def)
  qed
qed

theorem unknown_method_after_create_table_witness:
  "''bulk'' \<notin> set [''direct'', ''copy'', ''batch'']
   \<and> load_parquet_to_postgres
        \<lparr>fails = (\<lambda>h c. False), describe_result = [(''id'', ''INTEGER'')],
         source_rows = [[''1'']], temp_name = ''/tmp/tmpq1.csv'', catalog_columns = []\<rparr>
        \<lparr>pg_conn_str = ''postgresql://u@h/db''\<rparr> ''trips.parquet'' ''trips'' ''bulk'' False True []
      = (Inl (ValueError ''Unknown method: bulk''),
         [Info (Starting ''trips.parquet'' ''trips''), Ok DuckConnect,
          Ok (DuckDescribe ''trips.parquet''), Ok (PgConnect ''postgresql://u@h/db''),
          Ok (PgCreateTable (loader_create_sql [(''id'', ''INTEGER'')] ''trips'')), Ok PgCommit,
          Ok (PgExit True), Info (CreatedTable ''trips''), Ok DuckClose,
          Raised (ValueError ''Unknown method: bulk'')])"
proof -
  let ?E = "\<lparr>fails = (\<lambda>h c. False), describe_result = [(''id'', ''INTEGER'')],
         source_rows = [[''1'']], temp_name = ''/tmp/tmpq1.csv'', catalog_columns = []\<rparr>"
  let ?run = "load_parquet_to_postgres ?E \<lparr>pg_conn_str = ''postgresql://u@h/db''\<rparr>
      ''trips.parquet'' ''trips'' ''bulk'' False True []"
  have h: "''bulk'' \<notin> set [''direct'', ''copy'', ''batch'']" by simp
  have ok: "\<not> isl (fst (create_table_from_parquet ?E \<lparr>pg_conn_str = ''postgresql://u@h/db''\<rparr>
      ''trips.parquet'' ''trips'' False ([] @ [Info (Starting ''trips.parquet'' ''trips'')])))"
    by code_simp
  note inst = unknown_method_after_create_table[OF h, of ?E
      "\<lparr>pg_conn_str = ''postgresql://u@h/db''\<rparr>" "''trips.parquet''" "''trips''" False True "[]",
      unfolded Let_def]
  from inst ok have r: "fst ?run = Inl (ValueError (''Unknown method: '' @ ''bulk''))"
    by blast
  with inst have t: "snd ?run = Info (Starting ''trips.parquet'' ''trips'')
      # ([Ok DuckConnect, Ok (DuckDescribe ''trips.parquet''),
          Ok (PgConnect (pg_conn_str \<lparr>pg_conn_str = ''postgresql://u@h/db''\<rparr>))]
         @ (if False then [Ok (PgDropTable ''trips'')] else [])
         @ [Ok (PgCreateTable (loader_create_sql (describe_result ?E) ''trips'')), Ok PgCommit,
            Ok (PgExit True), Info (CreatedTable ''trips''), Ok DuckClose])
      @ [Raised (ValueError (''Unknown method: '' @ ''bulk''))]"
    by blast
  have "?run = (fst ?run, snd ?run)" by simp
  with r t h show ?thesis by simp
qed


section \<open>Where the code departs from the specification\<close>

lemma index_statements_append:
  "index_statements (xs @ ys) = index_statements xs @ index_statements ys"
  by (induction xs rule: index_statements.induct) simp_all

lemma index_loop_statements:
  "index_statements (snd (index_loop E tn cols k h))
     = map (loader_index_statement tn) (filter loader_index_wanted (map fst cols))
   \<and> \<not> isl (fst (index_loop E tn cols k h))"
proof (induction E tn cols k h rule: index_loop.induct)
  case (1 E tn k h)
  then show ?case by simp
next
  case (2 E tn col_name data_type cols k h)
  then show ?case
    by (auto simp: perform_def index_statements_append split: prod.splits if_splits)
qed

lemma loader_index_wanted_iff:
  "loader_index_wanted c
     = (list_ex (\<lambda>p. str_contains p (str_lower c)) [''datetime'', ''timestamp'', ''date'', ''time'']
        \<or> (list_ex (\<lambda>p. str_contains p (str_lower c)) [''id'', ''key'', ''code'']
            \<and> str_lower c \<noteq> ''id''))"
  by (simp add: loader_index_wanted_def Let_def)

text \<open>
  Claim C3 against the code. Over the columns tpep_pickup_datetime, fare_amount and id,
  \<open>generate_sample_indexes\<close> suggests two indexes, the second for the column id, which the
  claim excludes. The loader's \<open>create_suggested_indexes\<close> excludes id, but it has no
  pattern \<^verbatim>\<open>created\<close>: for a column created_at it creates no index, where
  \<open>generate_sample_indexes\<close> suggests one.
\<close>

theorem index_heuristics_disagree:
  "sample_indexes \<lparr>lowercase_columns = False\<rparr>
      [''tpep_pickup_datetime'', ''fare_amount'', ''id''] table_name
     = [sample_index_statement table_name ''tpep_pickup_datetime'',
        sample_index_statement table_name ''id'']
   \<and> sample_indexes \<lparr>lowercase_columns = False\<rparr> [''created_at''] table_name
     = [sample_index_statement table_name ''created_at'']
   \<and> map loader_index_wanted [''tpep_pickup_datetime'', ''fare_amount'', ''id'', ''created_at'']
     = [True, False, False, False]"
  by code_simp

lemma direct_without_scheme:
  assumes "\<not> str_contains ''postgresql://'' (pg_conn_str self)"
  shows "Ok (DuckAttach (pg_conn_str self)) \<notin> set (snd (load_data_direct_duckdb E self p tn h))
       \<and> Failed (DuckAttach (pg_conn_str self))
            \<notin> set (snd (load_data_direct_duckdb E self p tn h))
       \<and> Ok (DuckInsertSelect tn p) \<notin> set (snd (load_data_direct_duckdb E self p tn h))
       \<and> Failed (DuckInsertSelect tn p) \<notin> set (snd (load_data_direct_duckdb E self p tn h))
       \<and> isl (fst (load_data_direct_duckdb E self p tn h))
       \<and> (\<not> fails E h DuckConnect
            \<and> \<not> fails E (h @ [Ok DuckConnect]) DuckInstallPostgres
            \<and> \<not> fails E (h @ [Ok DuckConnect, Ok DuckInstallPostgres]) DuckLoadPostgres
          \<longrightarrow> Raised (ValueError
                 ''Connection string must be in postgresql:// format for direct DuckDB method'')
                \<in> set (snd (load_data_direct_duckdb E self p tn h)))"
  using assms
  by (auto simp: load_data_direct_duckdb_def bind_def try_finally_def perform_def raise_def)

text \<open>
  Claim C7 against the code. The connection string below is a keyword/value string, not
  a URI of the scheme \<^verbatim>\<open>postgresql://\<close>; the text of the scheme occurs inside one of its
  values. \<open>load_data_direct_duckdb\<close> tests for the text anywhere in the string, so it
  raises nothing, attaches the database and sends the insert.
\<close>

theorem direct_accepts_scheme_inside:
  "\<not> startswith ''host=localhost dbname=db application_name=postgresql://'' ''postgresql://''
   \<and> load_data_direct_duckdb
        \<lparr>fails = (\<lambda>h c. False), describe_result = [(''id'', ''INTEGER'')],
         source_rows = [[''1'']], temp_name = ''/tmp/tmpq1.csv'', catalog_columns = []\<rparr>
        \<lparr>pg_conn_str = ''host=localhost dbname=db application_name=postgresql://''\<rparr>
        ''trips.parquet'' ''trips'' []
      = (Inr (),
         [Ok DuckConnect, Ok DuckInstallPostgres, Ok DuckLoadPostgres,
          Ok (DuckAttach ''host=localhost dbname=db application_name=postgresql://''),
          Ok (DuckInsertSelect ''trips'' ''trips.parquet''), Info (LoadedDirect ''trips''),
          Ok DuckClose])"
  by code_simp

lemma files_after_append: "files_after fs (xs @ ys) = files_after (files_after fs xs) ys"
  by (simp add: files_after_def)

lemma files_after_simps [simp]:
  "files_after fs [] = fs"
  "files_after fs (e # es) = files_after (fs_step fs e) es"
  by (simp_all add: files_after_def)

lemma copy_failure_keeps_temp_file:
  assumes "load_data_copy E self p tn h = (r, t)"
    and "Failed c \<in> set t"
    and "c \<notin> {DuckConnect, TempFileCreate (temp_name E), DuckClose}"
  shows "temp_name E \<in> set (files_after fs t)"
  using assms
  by (auto simp: load_data_copy_def Let_def bind_def try_finally_def pg_session_def perform_def
        logger_info_def split: if_splits)

lemma copy_success_removes_temp_file:
  assumes "load_data_copy E self p tn h = (Inr u, t)"
  shows "temp_name E \<notin> set (files_after fs t)"
  using assms
  by (auto simp: load_data_copy_def Let_def bind_def try_finally_def pg_session_def perform_def
        logger_info_def split: if_splits)

text \<open>
  Claim C4 against the code. When the export to the temporary file raises, the
  \<^verbatim>\<open>finally\<close> clause of \<open>load_data_copy\<close> closes the DuckDB connection and nothing else:
  the call ends with the exception and the temporary file is still there.
\<close>

theorem copy_leaves_temp_file:
  "load_data_copy
     \<lparr>fails = (\<lambda>h c. c = DuckCopyToCsv ''trips.parquet'' ''/tmp/tmpq1.csv''),
      describe_result = [(''id'', ''INTEGER'')], source_rows = [[''1'']],
      temp_name = ''/tmp/tmpq1.csv'', catalog_columns = []\<rparr>
     \<lparr>pg_conn_str = ''postgresql://u@h/db''\<rparr> ''trips.parquet'' ''trips'' []
   = (Inl (CallError (DuckCopyToCsv ''trips.parquet'' ''/tmp/tmpq1.csv'')),
      [Ok DuckConnect, Ok (TempFileCreate ''/tmp/tmpq1.csv''),
       Failed (DuckCopyToCsv ''trips.parquet'' ''/tmp/tmpq1.csv''), Ok DuckClose])
   \<and> files_after []
       [Ok DuckConnect, Ok (TempFileCreate ''/tmp/tmpq1.csv''),
        Failed (DuckCopyToCsv ''trips.parquet'' ''/tmp/tmpq1.csv''), Ok DuckClose]
     = [''/tmp/tmpq1.csv'']"
  by code_simp


section \<open>The workflow: every stage in its turn\<close>

text \<open>
  What a step that returned normally has done, whatever the collaborators do; and the
  first call of every step.
\<close>

lemma direct_success:
  assumes "load_data_direct_duckdb E self p tn h = (Inr u, t)"
  shows "t = [Ok DuckConnect, Ok DuckInstallPostgres, Ok DuckLoadPostgres,
              Ok (DuckAttach (pg_conn_str self)), Ok (DuckInsertSelect tn p),
              Info (LoadedDirect tn), Ok DuckClose]"
  using assms
  unfolding load_data_direct_duckdb_def
  by (auto simp: bind_def try_finally_def perform_def raise_def logger_info_def
           split: if_splits prod.splits sum.splits)

lemma copy_success:
  assumes "load_data_copy E self p tn h = (Inr u, t)"
  shows "t = [Ok DuckConnect, Ok (TempFileCreate (temp_name E)),
              Ok (DuckCopyToCsv p (temp_name E)), Ok (DuckCount p),
              Ok (PgConnect (pg_conn_str self)), Ok (FileOpen (temp_name E)),
              Ok (PgCopyFrom tn (temp_name E)), Ok PgCommit, Ok (PgExit True),
              Ok (FileUnlink (temp_name E)),
              Info (LoadedCopy (length (source_rows E)) tn), Ok DuckClose]"
  using assms
  unfolding load_data_copy_def Let_def
  by (auto simp: bind_def try_finally_def pg_session_def perform_def logger_info_def
           split: if_splits prod.splits sum.splits)

lemma insert_batch_success:
  assumes "insert_batch E tn cs b n off batch h = (Inr u, t)"
  shows "t = [Ok (PgExecuteMany (insert_sql tn cs) batch), Ok PgCommit,
              Info (LoadedBatch (off div b + 1) (off + int (length batch)) n)]"
  using assms
  by (auto simp: insert_batch_def bind_def perform_def logger_info_def
           split: if_splits prod.splits sum.splits)

lemma batch_loop_success:
  "batches_when_returned E b n off (fst (batch_loop E p tn cs b n off h))
     (snd (batch_loop E p tn cs b n off h))"
proof -
  have "(\<lambda>E p tn cs b n off h r t. batches_when_returned E b n off r t)
          E p tn cs b n off h (fst (batch_loop E p tn cs b n off h))
          (snd (batch_loop E p tn cs b n off h))"
  proof (induction rule: batch_loop_cases)
    case (finished E p tn cs b n off h)
    have "inserted_batches [] = chunks (nat b) (drop (nat off) (source_rows E))"
      if n: "n = int (length (source_rows E))" and off: "0 \<le> off"
    proof -
      from finished n off have "nat b = 0 \<or> drop (nat off) (source_rows E) = []"
        by auto
      then have "chunks (nat b) (drop (nat off) (source_rows E)) = []"
        by auto
      then show ?thesis
        by simp
    qed
    then show ?case by (simp add: batches_when_returned_def)
  next
    case (page_fails E p tn cs b n off h)
    then show ?case by (simp add: batches_when_returned_def)
  next
    case (empty_page E p tn cs b n off h)
    then show ?case by (auto simp: batches_when_returned_def select_page_def)
  next
    case (insert_fails E p tn cs b n off h e t1)
    then show ?case by (simp add: batches_when_returned_def)
  next
    case (continue E p tn cs b n off h u t1 r t2)
    let ?rows = "source_rows E"
    let ?batch = "select_page ?rows b off"
    have "inserted_batches (Ok (DuckSelectPage p b off) # t1 @ t2)
            = chunks (nat b) (drop (nat off) ?rows)"
      if r: "r = Inr ()" and n: "n = int (length ?rows)" and off: "0 \<le> off"
    proof -
      from insert_batch_success[OF continue(5)]
      have t1: "t1 = [Ok (PgExecuteMany (insert_sql tn cs) ?batch), Ok PgCommit,
                      Info (LoadedBatch (off div b + 1) (off + int (length ?batch)) n)]" .
      from continue(1) off have off': "0 \<le> off + b" by simp
      from continue(7) r n off'
      have ih: "inserted_batches t2 = chunks (nat b) (drop (nat (off + b)) ?rows)"
        by (simp add: batches_when_returned_def)
      from continue(1) off have nn: "nat (off + b) = nat off + nat b"
        by (simp add: nat_add_distrib)
      from continue(2) n off have ne: "drop (nat off) ?rows \<noteq> []"
        by simp
      from continue(1) have kpos: "0 < nat b" by simp
      have dd: "drop (nat b) (drop (nat off) ?rows) = drop (nat (off + b)) ?rows"
        unfolding nn by (simp add: add.commute)
      have ch: "chunks (nat b) (drop (nat off) ?rows)
          = ?batch # chunks (nat b) (drop (nat (off + b)) ?rows)"
        using chunks_step[OF kpos ne] unfolding dd select_page_def .
      show ?thesis
        using ih by (simp add: t1 ch)
    qed
    then show ?case by (simp add: batches_when_returned_def)
  qed
  then show ?thesis by simp
qed

lemma batch_success:
  assumes "load_data_batch_insert E self p tn b h = (Inr u, t)"
  shows "\<exists>tl. batch_loop E p tn (map fst (describe_result E)) b (int (length (source_rows E))) 0
              (h @ [Ok DuckConnect, Ok (DuckCount p), Ok (DuckDescribe p),
                    Ok (PgConnect (pg_conn_str self))]) = (Inr (), tl)
          \<and> t = [Ok DuckConnect, Ok (DuckCount p), Ok (DuckDescribe p),
                 Ok (PgConnect (pg_conn_str self))] @ tl
                @ [Ok (PgExit True), Info (Completed (int (length (source_rows E))) tn),
                   Ok DuckClose]"
  using assms
  unfolding load_data_batch_insert_def Let_def
  by (auto simp: bind_def try_finally_def pg_session_def perform_def logger_info_def raise_def
           split: if_splits prod.splits sum.splits)

lemma batch_success_batches:
  assumes "load_data_batch_insert E self p tn b h = (Inr u, t)"
  shows "inserted_batches t = chunks (nat b) (source_rows E)"
proof -
  let ?h = "h @ [Ok DuckConnect, Ok (DuckCount p), Ok (DuckDescribe p),
                    Ok (PgConnect (pg_conn_str self))]"
  from batch_success[OF assms] obtain tl where
    l: "batch_loop E p tn (map fst (describe_result E)) b (int (length (source_rows E))) 0 ?h
          = (Inr (), tl)"
    and t: "t = [Ok DuckConnect, Ok (DuckCount p), Ok (DuckDescribe p),
                 Ok (PgConnect (pg_conn_str self))] @ tl
                @ [Ok (PgExit True), Info (Completed (int (length (source_rows E))) tn),
                   Ok DuckClose]"
    by blast
  from batch_loop_success[where E = E and p = p and tn = tn and b = b and off = 0 and h = ?h
      and cs = "map fst (describe_result E)" and n = "int (length (source_rows E))"] l
  have "inserted_batches tl = chunks (nat b) (source_rows E)"
    by (simp add: batches_when_returned_def)
  then show ?thesis
    unfolding t by (simp add: inserted_batches_append)
qed

lemma indexes_success:
  assumes "create_suggested_indexes E self tn h = (Inr u, t)"
  shows "take 2 t = [Ok (PgConnect (pg_conn_str self)), Ok (PgSelectColumns tn)]
       \<and> index_statements t
           = map (loader_index_statement tn)
               (filter loader_index_wanted (map fst (catalog_columns E)))"
proof -
  let ?h = "h @ [Ok (PgConnect (pg_conn_str self)), Ok (PgSelectColumns tn)]"
  obtain r tl where l: "index_loop E tn (catalog_columns E) 0 ?h = (r, tl)"
    by (cases "index_loop E tn (catalog_columns E) 0 ?h")
  from index_loop_statements[of E tn "catalog_columns E" 0 ?h] l
  have st: "index_statements tl
       = map (loader_index_statement tn) (filter loader_index_wanted (map fst (catalog_columns E)))"
    by simp
  from assms l have "\<exists>rest. t = [Ok (PgConnect (pg_conn_str self)), Ok (PgSelectColumns tn)]
      @ tl @ rest \<and> index_statements rest = []"
    unfolding create_suggested_indexes_def Let_def
    by (auto simp: bind_def pg_session_def perform_def logger_info_def
           split: if_splits prod.splits sum.splits)
  then obtain rest where t: "t = [Ok (PgConnect (pg_conn_str self)), Ok (PgSelectColumns tn)]
      @ tl @ rest" and r: "index_statements rest = []"
    by blast
  show ?thesis
    unfolding t using st r by (simp add: index_statements_append)
qed

lemma calls_of_bind_perform:
  "take 1 (calls_of (snd (bind (perform E c) f h))) = [c]"
  by (auto simp: bind_def perform_def calls_of_def List.map_filter_simps split: prod.splits)

lemma calls_of_pg_session:
  "take 1 (calls_of (snd (pg_session E cs body h))) = [PgConnect cs]"
  by (auto simp: pg_session_def perform_def calls_of_def List.map_filter_simps
      split: prod.splits sum.splits)

lemma create_table_entered:
  "take 1 (calls_of (snd (create_table_from_parquet E self p tn d h))) = [DuckConnect]"
  unfolding create_table_from_parquet_def by (rule calls_of_bind_perform)

lemma direct_entered:
  "take 1 (calls_of (snd (load_data_direct_duckdb E self p tn h))) = [DuckConnect]"
  unfolding load_data_direct_duckdb_def by (rule calls_of_bind_perform)

lemma copy_entered:
  "take 1 (calls_of (snd (load_data_copy E self p tn h))) = [DuckConnect]"
  unfolding load_data_copy_def by (rule calls_of_bind_perform)

lemma batch_entered:
  "take 1 (calls_of (snd (load_data_batch_insert E self p tn b h))) = [DuckConnect]"
  unfolding load_data_batch_insert_def by (rule calls_of_bind_perform)

lemma load_step_entered:
  assumes "m \<in> set [''direct'', ''copy'', ''batch'']"
  shows "take 1 (calls_of (snd (load_step E self p tn m h))) = [DuckConnect]"
  using assms direct_entered[of E self p tn h] copy_entered[of E self p tn h]
    batch_entered[of E self p tn 10000 h]
  by (auto simp: load_step_def)

lemma indexes_entered:
  "take 1 (calls_of (snd (create_suggested_indexes E self tn h))) = [PgConnect (pg_conn_str self)]"
  unfolding create_suggested_indexes_def by (rule calls_of_pg_session)

lemma workflow_run:
  assumes "create_table_from_parquet E self p tn d (h @ [Info (Starting p tn)]) = (r1, t1)"
    and "load_step E self p tn m (h @ [Info (Starting p tn)] @ t1) = (r2, t2)"
    and "(if ci then create_suggested_indexes E self tn else return ())
           (h @ [Info (Starting p tn)] @ t1 @ t2) = (r3, t3)"
  shows "load_parquet_to_postgres E self p tn m d ci h =
     (case r1 of Inl e \<Rightarrow> (Inl e, Info (Starting p tn) # t1)
      | Inr sql \<Rightarrow>
         (case r2 of Inl e \<Rightarrow> (Inl e, Info (Starting p tn) # t1 @ t2)
          | Inr u \<Rightarrow>
             (case r3 of Inl e \<Rightarrow> (Inl e, Info (Starting p tn) # t1 @ t2 @ t3)
              | Inr u' \<Rightarrow> (Inr (), Info (Starting p tn) # t1 @ t2 @ t3
                                    @ [Info (Succeeded p tn)]))))"
  using assms
  by (cases ci; cases r1; cases r2; cases r3)
     (simp_all add: load_parquet_to_postgres_def bind_def logger_info_def)

lemma no_failed_create_in_stage:
  assumes "set (stages t) \<subseteq> {k}" and "k \<noteq> 1"
  shows "Failed (PgCreateTable sql) \<notin> set t"
proof
  assume "Failed (PgCreateTable sql) \<in> set t"
  from failed_stage_mem[OF this, of 1] have "1 \<in> set (stages t)" by simp
  with assms show False by auto
qed

lemma load_step_direct_success:
  assumes "load_step E self p tn ''direct'' h = (Inr u, t)"
  shows "t = [Ok DuckConnect, Ok DuckInstallPostgres, Ok DuckLoadPostgres,
              Ok (DuckAttach (pg_conn_str self)), Ok (DuckInsertSelect tn p),
              Info (LoadedDirect tn), Ok DuckClose]"
  using assms direct_success[of E self p tn h u t] by (simp add: load_step_def)

lemma load_step_copy_success:
  assumes "load_step E self p tn ''copy'' h = (Inr u, t)"
  shows "t = [Ok DuckConnect, Ok (TempFileCreate (temp_name E)),
              Ok (DuckCopyToCsv p (temp_name E)), Ok (DuckCount p),
              Ok (PgConnect (pg_conn_str self)), Ok (FileOpen (temp_name E)),
              Ok (PgCopyFrom tn (temp_name E)), Ok PgCommit, Ok (PgExit True),
              Ok (FileUnlink (temp_name E)),
              Info (LoadedCopy (length (source_rows E)) tn), Ok DuckClose]"
  using assms copy_success[of E self p tn h u t] by (simp add: load_step_def)

lemma load_step_batch_success:
  assumes "load_step E self p tn ''batch'' h = (Inr u, t)"
  shows "inserted_batches t = chunks 10000 (source_rows E)"
  using assms batch_success_batches[of E self p tn 10000 h u t] by (simp add: load_step_def)

lemma index_step_emits:
  "emits {3} (if ci then create_suggested_indexes E self tn else return ())"
  by (simp add: emits_indexes emits_return)

lemma conj_skip5: "A \<and> B \<and> C \<and> D \<and> E \<and> R \<Longrightarrow> R"
  by simp

text \<open>
  Claim C5. In every run of \<open>load_parquet_to_postgres\<close>, whatever the collaborators do.
  The run is the start message, then the trace of \<open>create_table_from_parquet\<close>, then, only
  when that has returned, the trace of the loading step run after it, then, only when
  that has returned too, the trace of the index step, then the final message; when a
  step raises, the run ends with its exception and nothing follows the trace of that
  step. The calls of the first step are of stage 1, those of the loading step of stage 2,
  those of the index step of stage 3. Every step is entered with the connection it opens:
  so the loading step when the method is one of the three (otherwise it raises the
  \<^verbatim>\<open>ValueError\<close> at once), and the index step when \<^verbatim>\<open>create_indexes\<close> is set (otherwise it
  does nothing). A step that has returned has done its work: the first has read the
  schema and sent \<^verbatim>\<open>CREATE TABLE\<close>, committed; the direct strategy has attached the
  database and inserted; the copy strategy has exported the file, copied it and removed
  it; the batch strategy has inserted the rows of the source in batches of 10000; the
  index step has read the catalogue and sent one statement for each column its heuristic
  selects. On the whole trace: no call of any stage is made before the first successful
  \<^verbatim>\<open>DESCRIBE\<close>; the calls come in the order of the stages; after a fatal event only
  connections are released; when a call of stage \<open>k\<close> raises and ends the run, no call
  of a later stage is in the trace; and when \<^verbatim>\<open>CREATE TABLE\<close> raises (the table exists and was not dropped)
  the run ends with the trace of the first step: no call of a transfer is made and no
  index is created.
\<close>

theorem workflow_stage_order:
  "let run = load_parquet_to_postgres E self p tn m d ci h;
       t = snd run;
       h1 = h @ [Info (Starting p tn)];
       c1 = create_table_from_parquet E self p tn d h1;
       l2 = load_step E self p tn m (h1 @ snd c1);
       i3 = (if ci then create_suggested_indexes E self tn else return ())
              (h1 @ snd c1 @ snd l2)
   in stages (takeWhile (\<lambda>e. e \<noteq> Ok (DuckDescribe p)) t) = []
      \<and> sorted (stages t)
      \<and> stops_at_failure t
      \<and> (isl (fst c1) \<longrightarrow> run = (Inl (projl (fst c1)), Info (Starting p tn) # snd c1))
      \<and> (\<not> isl (fst c1) \<and> isl (fst l2)
           \<longrightarrow> run = (Inl (projl (fst l2)), Info (Starting p tn) # snd c1 @ snd l2))
      \<and> (\<not> isl (fst c1) \<and> \<not> isl (fst l2) \<and> isl (fst i3)
           \<longrightarrow> run = (Inl (projl (fst i3)), Info (Starting p tn) # snd c1 @ snd l2 @ snd i3))
      \<and> (\<not> isl (fst c1) \<and> \<not> isl (fst l2) \<and> \<not> isl (fst i3)
           \<longrightarrow> run = (Inr (), Info (Starting p tn) # snd c1 @ snd l2 @ snd i3
                                 @ [Info (Succeeded p tn)]))
      \<and> set (stages (snd c1)) \<subseteq> {1}
      \<and> set (stages (snd l2)) \<subseteq> {2}
      \<and> set (stages (snd i3)) \<subseteq> {3}
      \<and> take 1 (calls_of (snd c1)) = [DuckConnect]
      \<and> (m \<in> set [''direct'', ''copy'', ''batch'']
           \<longrightarrow> take 1 (calls_of (snd l2)) = [DuckConnect])
      \<and> (m \<notin> set [''direct'', ''copy'', ''batch'']
           \<longrightarrow> l2 = (Inl (ValueError (''Unknown method: '' @ m)),
                      [Raised (ValueError (''Unknown method: '' @ m))]))
      \<and> (ci \<longrightarrow> take 1 (calls_of (snd i3)) = [PgConnect (pg_conn_str self)])
      \<and> (\<not> ci \<longrightarrow> i3 = (Inr (), []))
      \<and> (\<not> isl (fst c1)
           \<longrightarrow> snd c1 = [Ok DuckConnect, Ok (DuckDescribe p), Ok (PgConnect (pg_conn_str self))]
                  @ (if d then [Ok (PgDropTable tn)] else [])
                  @ [Ok (PgCreateTable (loader_create_sql (describe_result E) tn)),
                     Ok PgCommit, Ok (PgExit True), Info (CreatedTable tn), Ok DuckClose])
      \<and> (\<not> isl (fst l2) \<and> m = ''direct''
           \<longrightarrow> snd l2 = [Ok DuckConnect, Ok DuckInstallPostgres, Ok DuckLoadPostgres,
                          Ok (DuckAttach (pg_conn_str self)), Ok (DuckInsertSelect tn p),
                          Info (LoadedDirect tn), Ok DuckClose])
      \<and> (\<not> isl (fst l2) \<and> m = ''copy''
           \<longrightarrow> snd l2 = [Ok DuckConnect, Ok (TempFileCreate (temp_name E)),
                          Ok (DuckCopyToCsv p (temp_name E)), Ok (DuckCount p),
                          Ok (PgConnect (pg_conn_str self)), Ok (FileOpen (temp_name E)),
                          Ok (PgCopyFrom tn (temp_name E)), Ok PgCommit, Ok (PgExit True),
                          Ok (FileUnlink (temp_name E)),
                          Info (LoadedCopy (length (source_rows E)) tn), Ok DuckClose])
      \<and> (\<not> isl (fst l2) \<and> m = ''batch''
           \<longrightarrow> inserted_batches (snd l2) = chunks 10000 (source_rows E))
      \<and> (ci \<and> \<not> isl (fst i3)
           \<longrightarrow> take 2 (snd i3) = [Ok (PgConnect (pg_conn_str self)), Ok (PgSelectColumns tn)]
               \<and> index_statements (snd i3)
                   = map (loader_index_statement tn)
                       (filter loader_index_wanted (map fst (catalog_columns E))))
      \<and> (isl (fst c1) \<longrightarrow> set (stages t) \<subseteq> {1})
      \<and> (isl (fst l2) \<longrightarrow> 3 \<notin> set (stages t))
      \<and> (\<forall>c k. Failed c \<in> set t \<and> fatal (Failed c) \<and> stage_of c = Some k
            \<longrightarrow> (\<forall>j\<in>set (stages t). j \<le> k))
      \<and> (\<forall>sql. Failed (PgCreateTable sql) \<in> set t
            \<longrightarrow> isl (fst c1) \<and> t = Info (Starting p tn) # snd c1
                \<and> 2 \<notin> set (stages t) \<and> 3 \<notin> set (stages t))"
proof -
  let ?s0 = "Info (Starting p tn)"
  let ?run = "load_parquet_to_postgres E self p tn m d ci h"
  let ?t = "snd ?run"
  let ?known = "set [''direct'', ''copy'', ''batch'']"
  obtain r1 t1 where c: "create_table_from_parquet E self p tn d (h @ [?s0]) = (r1, t1)"
    by (cases "create_table_from_parquet E self p tn d (h @ [?s0])")
  obtain r2 t2 where l: "load_step E self p tn m (h @ [?s0] @ t1) = (r2, t2)"
    by (cases "load_step E self p tn m (h @ [?s0] @ t1)")
  obtain r3 t3 where i: "(if ci then create_suggested_indexes E self tn else return ())
      (h @ [?s0] @ t1 @ t2) = (r3, t3)"
    by (cases "(if ci then create_suggested_indexes E self tn else return ())
      (h @ [?s0] @ t1 @ t2)")
  note run = workflow_run[OF c l i]
  have s1: "set (stages t1) \<subseteq> {1}"
    by (rule emitsD[OF emits_create_table c])
  have s2: "set (stages t2) \<subseteq> {2}"
    by (rule emitsD[OF emits_load_step l])
  have s3: "set (stages t3) \<subseteq> {3}"
    by (rule emitsD[OF index_step_emits i])
  have a1: "stages (takeWhile (\<lambda>e. e \<noteq> Ok (DuckDescribe p)) ?t) = []"
    by (rule schema_read_first)
  have a2: "sorted (stages ?t)"
    using ordered_workflow by (simp add: ordered_def)
  have a3: "stops_at_failure ?t"
    using halts_workflow by (simp add: halts_def)
  have b1: "isl r1 \<longrightarrow> ?run = (Inl (projl r1), ?s0 # t1)"
    using run by (cases r1) simp_all
  have b2: "\<not> isl r1 \<and> isl r2 \<longrightarrow> ?run = (Inl (projl r2), ?s0 # t1 @ t2)"
    using run by (cases r1; cases r2) simp_all
  have b3: "\<not> isl r1 \<and> \<not> isl r2 \<and> isl r3 \<longrightarrow> ?run = (Inl (projl r3), ?s0 # t1 @ t2 @ t3)"
    using run by (cases r1; cases r2; cases r3) simp_all
  have b4: "\<not> isl r1 \<and> \<not> isl r2 \<and> \<not> isl r3
      \<longrightarrow> ?run = (Inr (), ?s0 # t1 @ t2 @ t3 @ [Info (Succeeded p tn)])"
    using run by (cases r1; cases r2; cases r3) simp_all
  have d1: "take 1 (calls_of t1) = [DuckConnect]"
    using create_table_entered[of E self p tn d "h @ [?s0]"] c by simp
  have d2: "m \<in> ?known \<longrightarrow> take 1 (calls_of t2) = [DuckConnect]"
    using load_step_entered[of m E self p tn "h @ [?s0] @ t1"] l by simp
  have d3: "m \<notin> ?known \<longrightarrow> (r2, t2) = (Inl (ValueError (''Unknown method: '' @ m)),
                      [Raised (ValueError (''Unknown method: '' @ m))])"
    using load_step_unknown[of m E self p tn "h @ [?s0] @ t1"] l by simp
  have d4: "ci \<longrightarrow> take 1 (calls_of t3) = [PgConnect (pg_conn_str self)]"
    using indexes_entered[of E self tn "h @ [?s0] @ t1 @ t2"] i by auto
  have d5: "\<not> ci \<longrightarrow> (r3, t3) = (Inr (), [])"
    using i by (auto simp: return_def)
  have e1: "\<not> isl r1
      \<longrightarrow> t1 = [Ok DuckConnect, Ok (DuckDescribe p), Ok (PgConnect (pg_conn_str self))]
                  @ (if d then [Ok (PgDropTable tn)] else [])
                  @ [Ok (PgCreateTable (loader_create_sql (describe_result E) tn)),
                     Ok PgCommit, Ok (PgExit True), Info (CreatedTable tn), Ok DuckClose]"
  proof (cases r1)
    case (Inl e)
    then show ?thesis by simp
  next
    case (Inr sql)
    from create_table_success[OF c[unfolded Inr]] show ?thesis by blast
  qed
  have e2: "\<not> isl r2 \<and> m = ''direct''
      \<longrightarrow> t2 = [Ok DuckConnect, Ok DuckInstallPostgres, Ok DuckLoadPostgres,
                          Ok (DuckAttach (pg_conn_str self)), Ok (DuckInsertSelect tn p),
                          Info (LoadedDirect tn), Ok DuckClose]"
  proof (cases r2)
    case (Inl e)
    then show ?thesis by simp
  next
    case (Inr u)
    show ?thesis
    proof (intro impI, elim conjE)
      assume "m = ''direct''"
      with l Inr show "t2 = [Ok DuckConnect, Ok DuckInstallPostgres, Ok DuckLoadPostgres,
                          Ok (DuckAttach (pg_conn_str self)), Ok (DuckInsertSelect tn p),
                          Info (LoadedDirect tn), Ok DuckClose]"
        using load_step_direct_success by blast
    qed
  qed
  have e3: "\<not> isl r2 \<and> m = ''copy''
      \<longrightarrow> t2 = [Ok DuckConnect, Ok (TempFileCreate (temp_name E)),
                          Ok (DuckCopyToCsv p (temp_name E)), Ok (DuckCount p),
                          Ok (PgConnect (pg_conn_str self)), Ok (FileOpen (temp_name E)),
                          Ok (PgCopyFrom tn (temp_name E)), Ok PgCommit, Ok (PgExit True),
                          Ok (FileUnlink (temp_name E)),
                          Info (LoadedCopy (length (source_rows E)) tn), Ok DuckClose]"
  proof (cases r2)
    case (Inl e)
    then show ?thesis by simp
  next
    case (Inr u)
    show ?thesis
    proof (intro impI, elim conjE)
      assume "m = ''copy''"
      with l Inr show "t2 = [Ok DuckConnect, Ok (TempFileCreate (temp_name E)),
                          Ok (DuckCopyToCsv p (temp_name E)), Ok (DuckCount p),
                          Ok (PgConnect (pg_conn_str self)), Ok (FileOpen (temp_name E)),
                          Ok (PgCopyFrom tn (temp_name E)), Ok PgCommit, Ok (PgExit True),
                          Ok (FileUnlink (temp_name E)),
                          Info (LoadedCopy (length (source_rows E)) tn), Ok DuckClose]"
        using load_step_copy_success by blast
    qed
  qed
  have e4: "\<not> isl r2 \<and> m = ''batch''
      \<longrightarrow> inserted_batches t2 = chunks 10000 (source_rows E)"
  proof (cases r2)
    case (Inl e)
    then show ?thesis by simp
  next
    case (Inr u)
    show ?thesis
    proof (intro impI, elim conjE)
      assume "m = ''batch''"
      with l Inr show "inserted_batches t2 = chunks 10000 (source_rows E)"
        using load_step_batch_success by blast
    qed
  qed
  have e5: "ci \<and> \<not> isl r3
      \<longrightarrow> take 2 t3 = [Ok (PgConnect (pg_conn_str self)), Ok (PgSelectColumns tn)]
               \<and> index_statements t3
                   = map (loader_index_statement tn)
                       (filter loader_index_wanted (map fst (catalog_columns E)))"
  proof (cases r3)
    case (Inl e)
    then show ?thesis by simp
  next
    case (Inr u)
    show ?thesis
    proof (intro impI, elim conjE)
      assume "ci"
      with i Inr have "create_suggested_indexes E self tn (h @ [?s0] @ t1 @ t2) = (Inr u, t3)"
        by simp
      from indexes_success[OF this]
      show "take 2 t3 = [Ok (PgConnect (pg_conn_str self)), Ok (PgSelectColumns tn)]
               \<and> index_statements t3
                   = map (loader_index_statement tn)
                       (filter loader_index_wanted (map fst (catalog_columns E)))" .
    qed
  qed
  have f1: "isl r1 \<longrightarrow> set (stages ?t) \<subseteq> {1}"
    using b1 s1 by auto
  have f2: "isl r2 \<longrightarrow> 3 \<notin> set (stages ?t)"
  proof
    assume r2: "isl r2"
    show "3 \<notin> set (stages ?t)"
    proof (cases "isl r1")
      case True
      with f1 show ?thesis by auto
    next
      case False
      with r2 b2 have "?t = ?s0 # t1 @ t2" by simp
      with s1 s2 show ?thesis by auto
    qed
  qed
  have f4: "\<forall>c k. Failed c \<in> set ?t \<and> fatal (Failed c) \<and> stage_of c = Some k
      \<longrightarrow> (\<forall>j\<in>set (stages ?t). j \<le> k)"
    using nothing_later_than_failed_stage[OF a2 a3] by blast
  have f3: "\<forall>sql. Failed (PgCreateTable sql) \<in> set ?t
      \<longrightarrow> isl r1 \<and> ?t = ?s0 # t1 \<and> 2 \<notin> set (stages ?t) \<and> 3 \<notin> set (stages ?t)"
  proof (intro allI impI)
    fix sql
    assume mem: "Failed (PgCreateTable sql) \<in> set ?t"
    have n2: "Failed (PgCreateTable sql) \<notin> set t2"
      by (rule no_failed_create_in_stage[OF s2]) simp
    have n3: "Failed (PgCreateTable sql) \<notin> set t3"
      by (rule no_failed_create_in_stage[OF s3]) simp
    have r1: "isl r1"
    proof (rule ccontr)
      assume nr: "\<not> isl r1"
      with e1 have n1: "Failed (PgCreateTable sql) \<notin> set t1"
        by auto
      have "set ?t \<subseteq> {?s0, Info (Succeeded p tn)} \<union> set t1 \<union> set t2 \<union> set t3"
        using run by (cases r1; cases r2; cases r3) auto
      with mem n1 n2 n3 show False by auto
    qed
    with b1 have t: "?t = ?s0 # t1" by simp
    with s1 show "isl r1 \<and> ?t = ?s0 # t1 \<and> 2 \<notin> set (stages ?t) \<and> 3 \<notin> set (stages ?t)"
      using r1 by auto
  qed
  have cs: "snd (create_table_from_parquet E self p tn d (h @ [?s0])) = t1"
    "fst (create_table_from_parquet E self p tn d (h @ [?s0])) = r1"
    using c by simp_all
  have ls: "snd (load_step E self p tn m ((h @ [?s0]) @ t1)) = t2"
    "fst (load_step E self p tn m ((h @ [?s0]) @ t1)) = r2"
    "load_step E self p tn m ((h @ [?s0]) @ t1) = (r2, t2)"
    using l by simp_all
  have ix: "snd ((if ci then create_suggested_indexes E self tn else return ())
      ((h @ [?s0]) @ t1 @ t2)) = t3"
    "fst ((if ci then create_suggested_indexes E self tn else return ())
      ((h @ [?s0]) @ t1 @ t2)) = r3"
    "(if ci then create_suggested_indexes E self tn else return ())
      ((h @ [?s0]) @ t1 @ t2) = (r3, t3)"
    using i by simp_all
  show ?thesis
    unfolding Let_def cs ls ix fst_conv snd_conv
    using a1 a2 a3 b1 b2 b3 b4 s1 s2 s3 d1 d2 d3 d4 d5 e1 e2 e3 e4 e5 f1 f2 f4 f3
    by (intro conjI)
qed

text \<open>
  The theorem on seven runs over \<^verbatim>\<open>trips.parquet\<close>. With the copy strategy, the table
  dropped first: the three steps return and the run is their traces in order. With the
  copy strategy and a table that exists and is not dropped: \<^verbatim>\<open>CREATE TABLE\<close> raises and
  the run ends there, with no call of stage 2 or 3. With an export that raises: the run
  ends in the loading step, with no call of stage 3. With a catalogue query that raises:
  the run ends in the index step. With the direct strategy and no indexes: the index step
  does nothing. With the batch strategy: the two rows are inserted as one batch. With the
  method \<^verbatim>\<open>bulk\<close>: the loading step raises at once.
\<close>

theorem workflow_stage_order_witness:
  "(let E = trips_env (table_exists ''trips''); p = ''trips.parquet''; tn = ''trips'';
        h1 = [Info (Starting p tn)];
        c1 = create_table_from_parquet E trips_loader p tn True h1;
        l2 = load_step E trips_loader p tn ''copy'' (h1 @ snd c1);
        i3 = create_suggested_indexes E trips_loader tn (h1 @ snd c1 @ snd l2);
        run = load_parquet_to_postgres E trips_loader p tn ''copy'' True True []
    in \<not> isl (fst c1) \<and> \<not> isl (fst l2) \<and> \<not> isl (fst i3)
       \<and> ''copy'' \<in> set [''direct'', ''copy'', ''batch'']
       \<and> run = (Inr (), Info (Starting p tn) # snd c1 @ snd l2 @ snd i3
                          @ [Info (Succeeded p tn)])
       \<and> snd c1 = [Ok DuckConnect, Ok (DuckDescribe p), Ok (PgConnect (pg_conn_str trips_loader)),
                   Ok (PgDropTable tn),
                   Ok (PgCreateTable (loader_create_sql (describe_result E) tn)),
                   Ok PgCommit, Ok (PgExit True), Info (CreatedTable tn), Ok DuckClose]
       \<and> take 1 (calls_of (snd l2)) = [DuckConnect]
       \<and> snd l2 = [Ok DuckConnect, Ok (TempFileCreate (temp_name E)),
                   Ok (DuckCopyToCsv p (temp_name E)), Ok (DuckCount p),
                   Ok (PgConnect (pg_conn_str trips_loader)), Ok (FileOpen (temp_name E)),
                   Ok (PgCopyFrom tn (temp_name E)), Ok PgCommit, Ok (PgExit True),
                   Ok (FileUnlink (temp_name E)),
                   Info (LoadedCopy (length (source_rows E)) tn), Ok DuckClose]
       \<and> take 1 (calls_of (snd i3)) = [PgConnect (pg_conn_str trips_loader)]
       \<and> take 2 (snd i3) = [Ok (PgConnect (pg_conn_str trips_loader)), Ok (PgSelectColumns tn)]
       \<and> index_statements (snd i3)
            = [''CREATE INDEX idx_trips_vendorid ON trips(vendorid)'',
               ''CREATE INDEX idx_trips_tpep_pickup_datetime ON trips(tpep_pickup_datetime)'']
       \<and> stages (snd run) = [1, 1, 2, 2, 2, 2, 2, 2, 3, 3, 3])
   \<and> (let E = trips_env (table_exists ''trips''); p = ''trips.parquet''; tn = ''trips'';
           h1 = [Info (Starting p tn)];
           c1 = create_table_from_parquet E trips_loader p tn False h1;
           run = load_parquet_to_postgres E trips_loader p tn ''copy'' False True []
       in isl (fst c1)
          \<and> Failed (PgCreateTable (loader_create_sql (describe_result E) tn)) \<in> set (snd run)
          \<and> c1 = (Inl (CallError (PgCreateTable (loader_create_sql (describe_result E) tn))),
                   [Ok DuckConnect, Ok (DuckDescribe p),
                    Ok (PgConnect (pg_conn_str trips_loader)),
                    Failed (PgCreateTable (loader_create_sql (describe_result E) tn)),
                    Ok (PgExit False), Ok DuckClose])
          \<and> run = (Inl (projl (fst c1)), Info (Starting p tn) # snd c1)
          \<and> set (stages (snd run)) \<subseteq> {1}
          \<and> 2 \<notin> set (stages (snd run)) \<and> 3 \<notin> set (stages (snd run)))
   \<and> (let E = trips_env (failing (DuckCopyToCsv ''trips.parquet'' ''/tmp/tmpq1.csv''));
           p = ''trips.parquet''; tn = ''trips'';
           h1 = [Info (Starting p tn)];
           c1 = create_table_from_parquet E trips_loader p tn True h1;
           l2 = load_step E trips_loader p tn ''copy'' (h1 @ snd c1);
           run = load_parquet_to_postgres E trips_loader p tn ''copy'' True True []
       in \<not> isl (fst c1) \<and> isl (fst l2)
          \<and> l2 = (Inl (CallError (DuckCopyToCsv p ''/tmp/tmpq1.csv'')),
                   [Ok DuckConnect, Ok (TempFileCreate ''/tmp/tmpq1.csv''),
                    Failed (DuckCopyToCsv p ''/tmp/tmpq1.csv''), Ok DuckClose])
          \<and> run = (Inl (projl (fst l2)), Info (Starting p tn) # snd c1 @ snd l2)
          \<and> 3 \<notin> set (stages (snd run))
          \<and> Failed (DuckCopyToCsv p ''/tmp/tmpq1.csv'') \<in> set (snd run)
          \<and> fatal (Failed (DuckCopyToCsv p ''/tmp/tmpq1.csv''))
          \<and> stage_of (DuckCopyToCsv p ''/tmp/tmpq1.csv'') = Some 2
          \<and> list_all (\<lambda>j. j \<le> 2) (stages (snd run)))
   \<and> (let E = trips_env (failing (PgSelectColumns ''trips''));
           p = ''trips.parquet''; tn = ''trips'';
           h1 = [Info (Starting p tn)];
           c1 = create_table_from_parquet E trips_loader p tn True h1;
           l2 = load_step E trips_loader p tn ''copy'' (h1 @ snd c1);
           i3 = create_suggested_indexes E trips_loader tn (h1 @ snd c1 @ snd l2);
           run = load_parquet_to_postgres E trips_loader p tn ''copy'' True True []
       in \<not> isl (fst c1) \<and> \<not> isl (fst l2) \<and> isl (fst i3)
          \<and> i3 = (Inl (CallError (PgSelectColumns tn)),
                   [Ok (PgConnect (pg_conn_str trips_loader)), Failed (PgSelectColumns tn),
                    Ok (PgExit False)])
          \<and> run = (Inl (projl (fst i3)), Info (Starting p tn) # snd c1 @ snd l2 @ snd i3))
   \<and> (let E = trips_env (table_exists ''trips''); p = ''trips.parquet''; tn = ''trips'';
           h1 = [Info (Starting p tn)];
           c1 = create_table_from_parquet E trips_loader p tn True h1;
           l2 = load_step E trips_loader p tn ''direct'' (h1 @ snd c1);
           i3 = (return () :: unit action) (h1 @ snd c1 @ snd l2);
           run = load_parquet_to_postgres E trips_loader p tn ''direct'' True False []
       in \<not> isl (fst c1) \<and> \<not> isl (fst l2) \<and> \<not> isl (fst i3)
          \<and> i3 = (Inr (), [])
          \<and> snd l2 = [Ok DuckConnect, Ok DuckInstallPostgres, Ok DuckLoadPostgres,
                      Ok (DuckAttach (pg_conn_str trips_loader)), Ok (DuckInsertSelect tn p),
                      Info (LoadedDirect tn), Ok DuckClose]
          \<and> run = (Inr (), Info (Starting p tn) # snd c1 @ snd l2 @ snd i3
                             @ [Info (Succeeded p tn)]))
   \<and> (let E = trips_env (table_exists ''trips''); p = ''trips.parquet''; tn = ''trips'';
           h1 = [Info (Starting p tn)];
           c1 = create_table_from_parquet E trips_loader p tn True h1;
           l2 = load_step E trips_loader p tn ''batch'' (h1 @ snd c1)
       in \<not> isl (fst l2)
          \<and> inserted_batches (snd l2) = chunks 10000 (source_rows E)
          \<and> chunks 10000 (source_rows E)
               = [[[''1'', ''2024-01-01 00:00:00''], [''2'', ''2024-01-01 00:05:00'']]])
   \<and> (let E = trips_env (table_exists ''trips''); p = ''trips.parquet''; tn = ''trips'';
           h1 = [Info (Starting p tn)];
           c1 = create_table_from_parquet E trips_loader p tn True h1;
           l2 = load_step E trips_loader p tn ''bulk'' (h1 @ snd c1)
       in ''bulk'' \<notin> set [''direct'', ''copy'', ''batch'']
          \<and> l2 = (Inl (ValueError ''Unknown method: bulk''),
                   [Raised (ValueError ''Unknown method: bulk'')]))"
proof -
  let ?p = "''trips.parquet''"
  let ?tn = "''trips''"
  let ?h1 = "[Info (Starting ?p ?tn)]"
  let ?L = "trips_loader"
  let ?E = "trips_env (table_exists ''trips'')"
  let ?sql = "loader_create_sql (describe_result ?E) ?tn"
  have g1: "let E = ?E; p = ?p; tn = ?tn;
        h1 = [Info (Starting p tn)];
        c1 = create_table_from_parquet E trips_loader p tn True h1;
        l2 = load_step E trips_loader p tn ''copy'' (h1 @ snd c1);
        i3 = create_suggested_indexes E trips_loader tn (h1 @ snd c1 @ snd l2);
        run = load_parquet_to_postgres E trips_loader p tn ''copy'' True True []
    in \<not> isl (fst c1) \<and> \<not> isl (fst l2) \<and> \<not> isl (fst i3)
       \<and> ''copy'' \<in> set [''direct'', ''copy'', ''batch'']
       \<and> run = (Inr (), Info (Starting p tn) # snd c1 @ snd l2 @ snd i3
                          @ [Info (Succeeded p tn)])
       \<and> snd c1 = [Ok DuckConnect, Ok (DuckDescribe p), Ok (PgConnect (pg_conn_str trips_loader)),
                   Ok (PgDropTable tn),
                   Ok (PgCreateTable (loader_create_sql (describe_result E) tn)),
                   Ok PgCommit, Ok (PgExit True), Info (CreatedTable tn), Ok DuckClose]
       \<and> take 1 (calls_of (snd l2)) = [DuckConnect]
       \<and> snd l2 = [Ok DuckConnect, Ok (TempFileCreate (temp_name E)),
                   Ok (DuckCopyToCsv p (temp_name E)), Ok (DuckCount p),
                   Ok (PgConnect (pg_conn_str trips_loader)), Ok (FileOpen (temp_name E)),
                   Ok (PgCopyFrom tn (temp_name E)), Ok PgCommit, Ok (PgExit True),
                   Ok (FileUnlink (temp_name E)),
                   Info (LoadedCopy (length (source_rows E)) tn), Ok DuckClose]
       \<and> take 1 (calls_of (snd i3)) = [PgConnect (pg_conn_str trips_loader)]
       \<and> take 2 (snd i3) = [Ok (PgConnect (pg_conn_str trips_loader)), Ok (PgSelectColumns tn)]
       \<and> index_statements (snd i3)
            = [''CREATE INDEX idx_trips_vendorid ON trips(vendorid)'',
               ''CREATE INDEX idx_trips_tpep_pickup_datetime ON trips(tpep_pickup_datetime)'']
       \<and> stages (snd run) = [1, 1, 2, 2, 2, 2, 2, 2, 3, 3, 3]"
  proof -
    let ?c1 = "create_table_from_parquet ?E ?L ?p ?tn True ?h1"
    let ?l2 = "load_step ?E ?L ?p ?tn ''copy'' (?h1 @ snd ?c1)"
    let ?i3 = "create_suggested_indexes ?E ?L ?tn (?h1 @ snd ?c1 @ snd ?l2)"
    let ?run = "load_parquet_to_postgres ?E ?L ?p ?tn ''copy'' True True []"
    note inst = workflow_stage_order[of ?E ?L ?p ?tn "''copy''" True True "[]",
        unfolded Let_def append_Nil if_True if_False]
    have a1: "\<not> isl (fst ?c1)" by code_simp
    have a2: "\<not> isl (fst ?l2)" by code_simp
    have a3: "\<not> isl (fst ?i3)" by code_simp
    have a4: "''copy'' \<in> set [''direct'', ''copy'', ''batch'']" by simp
    note k1 = inst
        [THEN conj_skip5, THEN conjunct2, THEN conjunct1]
    have r: "?run = (Inr (), Info (Starting ?p ?tn) # snd ?c1 @ snd ?l2
        @ snd ?i3 @ [Info (Succeeded ?p ?tn)])"
      by (rule k1[THEN mp, OF conjI[OF a1 conjI[OF a2 a3]]])
    note k2 = inst
        [THEN conj_skip5, THEN conj_skip5, THEN conj_skip5, THEN conjunct1]
    have "snd ?c1
        = [Ok DuckConnect, Ok (DuckDescribe ?p), Ok (PgConnect (pg_conn_str ?L))]
            @ [Ok (PgDropTable ?tn)]
            @ [Ok (PgCreateTable ?sql), Ok PgCommit, Ok (PgExit True), Info (CreatedTable ?tn),
               Ok DuckClose]"
      by (rule k2[THEN mp, OF a1])
    then have c: "snd ?c1
        = [Ok DuckConnect, Ok (DuckDescribe ?p), Ok (PgConnect (pg_conn_str ?L)),
           Ok (PgDropTable ?tn), Ok (PgCreateTable ?sql), Ok PgCommit, Ok (PgExit True),
           Info (CreatedTable ?tn), Ok DuckClose]"
      by (simp only: append_Cons append_Nil)
    note k3 = inst
        [THEN conj_skip5, THEN conj_skip5, THEN conjunct2, THEN conjunct1]
    have e: "take 1 (calls_of (snd ?l2)) = [DuckConnect]"
      by (rule k3[THEN mp, OF a4])
    note k4 = inst
        [THEN conj_skip5, THEN conj_skip5, THEN conj_skip5, THEN conjunct2, THEN conjunct2,
         THEN conjunct1]
    have l: "snd ?l2 = [Ok DuckConnect, Ok (TempFileCreate (temp_name ?E)),
                   Ok (DuckCopyToCsv ?p (temp_name ?E)), Ok (DuckCount ?p),
                   Ok (PgConnect (pg_conn_str ?L)), Ok (FileOpen (temp_name ?E)),
                   Ok (PgCopyFrom ?tn (temp_name ?E)), Ok PgCommit, Ok (PgExit True),
                   Ok (FileUnlink (temp_name ?E)),
                   Info (LoadedCopy (length (source_rows ?E)) ?tn), Ok DuckClose]"
      by (rule k4[THEN mp, OF conjI[OF a2 refl]])
    note k5 = inst
        [THEN conj_skip5, THEN conj_skip5, THEN conjunct2, THEN conjunct2, THEN conjunct2,
         THEN conjunct1]
    have e3: "take 1 (calls_of (snd ?i3)) = [PgConnect (pg_conn_str ?L)]"
      by (rule k5[THEN mp, OF TrueI])
    note k6 = inst
        [THEN conj_skip5, THEN conj_skip5, THEN conj_skip5, THEN conjunct2, THEN conjunct2,
         THEN conjunct2, THEN conjunct2, THEN conjunct1]
    have ix: "take 2 (snd ?i3)
          = [Ok (PgConnect (pg_conn_str ?L)), Ok (PgSelectColumns ?tn)]
        \<and> index_statements (snd ?i3)
          = map (loader_index_statement ?tn)
              (filter loader_index_wanted (map fst (catalog_columns ?E)))"
      by (rule k6[THEN mp, OF conjI[OF TrueI a3]])
    have ev: "map (loader_index_statement ?tn)
              (filter loader_index_wanted (map fst (catalog_columns ?E)))
        = [''CREATE INDEX idx_trips_vendorid ON trips(vendorid)'',
           ''CREATE INDEX idx_trips_tpep_pickup_datetime ON trips(tpep_pickup_datetime)'']"
      by code_simp
    from ix ev have ix1: "take 2 (snd ?i3)
          = [Ok (PgConnect (pg_conn_str ?L)), Ok (PgSelectColumns ?tn)]"
      and ix2: "index_statements (snd ?i3)
        = [''CREATE INDEX idx_trips_vendorid ON trips(vendorid)'',
           ''CREATE INDEX idx_trips_tpep_pickup_datetime ON trips(tpep_pickup_datetime)'']"
      by (simp_all only:)
    have st: "stages (snd ?run) = [1, 1, 2, 2, 2, 2, 2, 2, 3, 3, 3]"
      by code_simp
    from a1 a2 a3 a4 r c e l e3 ix1 ix2 st show ?thesis
      unfolding Let_def by (intro conjI)
  qed
  have g2: "let E = ?E; p = ?p; tn = ?tn;
           h1 = [Info (Starting p tn)];
           c1 = create_table_from_parquet E trips_loader p tn False h1;
           run = load_parquet_to_postgres E trips_loader p tn ''copy'' False True []
       in isl (fst c1)
          \<and> Failed (PgCreateTable (loader_create_sql (describe_result E) tn)) \<in> set (snd run)
          \<and> c1 = (Inl (CallError (PgCreateTable (loader_create_sql (describe_result E) tn))),
                   [Ok DuckConnect, Ok (DuckDescribe p),
                    Ok (PgConnect (pg_conn_str trips_loader)),
                    Failed (PgCreateTable (loader_create_sql (describe_result E) tn)),
                    Ok (PgExit False), Ok DuckClose])
          \<and> run = (Inl (projl (fst c1)), Info (Starting p tn) # snd c1)
          \<and> set (stages (snd run)) \<subseteq> {1}
          \<and> 2 \<notin> set (stages (snd run)) \<and> 3 \<notin> set (stages (snd run))"
  proof -
    let ?c1 = "create_table_from_parquet ?E ?L ?p ?tn False ?h1"
    let ?run = "load_parquet_to_postgres ?E ?L ?p ?tn ''copy'' False True []"
    note inst = workflow_stage_order[of ?E ?L ?p ?tn "''copy''" False True "[]",
        unfolded Let_def append_Nil if_True if_False]
    have a1: "isl (fst ?c1)" by code_simp
    have a2: "Failed (PgCreateTable ?sql) \<in> set (snd ?run)" by code_simp
    have c: "?c1 = (Inl (CallError (PgCreateTable ?sql)),
                   [Ok DuckConnect, Ok (DuckDescribe ?p), Ok (PgConnect (pg_conn_str ?L)),
                    Failed (PgCreateTable ?sql), Ok (PgExit False), Ok DuckClose])"
      by code_simp
    note k7 = inst
        [THEN conjunct2, THEN conjunct2, THEN conjunct2, THEN conjunct1]
    have r: "?run = (Inl (projl (fst ?c1)), Info (Starting ?p ?tn) # snd ?c1)"
      by (rule k7[THEN mp, OF a1])
    note k8 = inst
        [THEN conj_skip5, THEN conj_skip5, THEN conj_skip5, THEN conj_skip5, THEN conjunct1]
    have s: "set (stages (snd ?run)) \<subseteq> {1}"
      by (rule k8[THEN mp, OF a1])
    note k24 = inst
        [THEN conj_skip5, THEN conj_skip5, THEN conj_skip5, THEN conj_skip5, THEN conjunct2,
         THEN conjunct2, THEN conjunct2]
    note sc = k24[THEN spec, THEN mp, OF a2]
    have n: "2 \<notin> set (stages (snd ?run))" "3 \<notin> set (stages (snd ?run))"
      by (rule sc[THEN conjunct2, THEN conjunct2, THEN conjunct1])
         (rule sc[THEN conjunct2, THEN conjunct2, THEN conjunct2])
    from a1 a2 c r s n show ?thesis
      unfolding Let_def by (intro conjI)
  qed
  let ?E3 = "trips_env (failing (DuckCopyToCsv ''trips.parquet'' ''/tmp/tmpq1.csv''))"
  have g3: "let E = ?E3; p = ?p; tn = ?tn;
           h1 = [Info (Starting p tn)];
           c1 = create_table_from_parquet E trips_loader p tn True h1;
           l2 = load_step E trips_loader p tn ''copy'' (h1 @ snd c1);
           run = load_parquet_to_postgres E trips_loader p tn ''copy'' True True []
       in \<not> isl (fst c1) \<and> isl (fst l2)
          \<and> l2 = (Inl (CallError (DuckCopyToCsv p ''/tmp/tmpq1.csv'')),
                   [Ok DuckConnect, Ok (TempFileCreate ''/tmp/tmpq1.csv''),
                    Failed (DuckCopyToCsv p ''/tmp/tmpq1.csv''), Ok DuckClose])
          \<and> run = (Inl (projl (fst l2)), Info (Starting p tn) # snd c1 @ snd l2)
          \<and> 3 \<notin> set (stages (snd run))
          \<and> Failed (DuckCopyToCsv p ''/tmp/tmpq1.csv'') \<in> set (snd run)
          \<and> fatal (Failed (DuckCopyToCsv p ''/tmp/tmpq1.csv''))
          \<and> stage_of (DuckCopyToCsv p ''/tmp/tmpq1.csv'') = Some 2
          \<and> list_all (\<lambda>j. j \<le> 2) (stages (snd run))"
  proof -
    let ?c1 = "create_table_from_parquet ?E3 ?L ?p ?tn True ?h1"
    let ?l2 = "load_step ?E3 ?L ?p ?tn ''copy'' (?h1 @ snd ?c1)"
    let ?run = "load_parquet_to_postgres ?E3 ?L ?p ?tn ''copy'' True True []"
    note inst = workflow_stage_order[of ?E3 ?L ?p ?tn "''copy''" True True "[]",
        unfolded Let_def append_Nil if_True if_False]
    have a1: "\<not> isl (fst ?c1)" by code_simp
    have a2: "isl (fst ?l2)" by code_simp
    have c: "?l2 = (Inl (CallError (DuckCopyToCsv ?p ''/tmp/tmpq1.csv'')),
                   [Ok DuckConnect, Ok (TempFileCreate ''/tmp/tmpq1.csv''),
                    Failed (DuckCopyToCsv ?p ''/tmp/tmpq1.csv''), Ok DuckClose])"
      by code_simp
    note k9 = inst
        [THEN conjunct2, THEN conjunct2, THEN conjunct2, THEN conjunct2, THEN conjunct1]
    have r: "?run = (Inl (projl (fst ?l2)),
        Info (Starting ?p ?tn) # snd ?c1 @ snd ?l2)"
      by (rule k9[THEN mp, OF conjI[OF a1 a2]])
    note k10 = inst
        [THEN conj_skip5, THEN conj_skip5, THEN conj_skip5, THEN conj_skip5, THEN conjunct2,
         THEN conjunct1]
    have n: "3 \<notin> set (stages (snd ?run))"
      by (rule k10[THEN mp, OF a2])
    have a5: "Failed (DuckCopyToCsv ?p ''/tmp/tmpq1.csv'') \<in> set (snd ?run)
        \<and> fatal (Failed (DuckCopyToCsv ?p ''/tmp/tmpq1.csv''))
        \<and> stage_of (DuckCopyToCsv ?p ''/tmp/tmpq1.csv'') = Some 2"
      by code_simp
    note k23 = inst
        [THEN conj_skip5, THEN conj_skip5, THEN conj_skip5, THEN conj_skip5, THEN conjunct2,
         THEN conjunct2, THEN conjunct1]
    have b: "list_all (\<lambda>j. j \<le> 2) (stages (snd ?run))"
      by (rule list_all_iff[THEN iffD2, OF k23[THEN spec, THEN spec, THEN mp, OF a5]])
    from a1 a2 c r n a5[THEN conjunct1] a5[THEN conjunct2, THEN conjunct1]
      a5[THEN conjunct2, THEN conjunct2] b
    show ?thesis
      unfolding Let_def by (intro conjI)
  qed
  let ?E4 = "trips_env (failing (PgSelectColumns ''trips''))"
  have g4: "let E = ?E4; p = ?p; tn = ?tn;
           h1 = [Info (Starting p tn)];
           c1 = create_table_from_parquet E trips_loader p tn True h1;
           l2 = load_step E trips_loader p tn ''copy'' (h1 @ snd c1);
           i3 = create_suggested_indexes E trips_loader tn (h1 @ snd c1 @ snd l2);
           run = load_parquet_to_postgres E trips_loader p tn ''copy'' True True []
       in \<not> isl (fst c1) \<and> \<not> isl (fst l2) \<and> isl (fst i3)
          \<and> i3 = (Inl (CallError (PgSelectColumns tn)),
                   [Ok (PgConnect (pg_conn_str trips_loader)), Failed (PgSelectColumns tn),
                    Ok (PgExit False)])
          \<and> run = (Inl (projl (fst i3)), Info (Starting p tn) # snd c1 @ snd l2 @ snd i3)"
  proof -
    let ?c1 = "create_table_from_parquet ?E4 ?L ?p ?tn True ?h1"
    let ?l2 = "load_step ?E4 ?L ?p ?tn ''copy'' (?h1 @ snd ?c1)"
    let ?i3 = "create_suggested_indexes ?E4 ?L ?tn (?h1 @ snd ?c1 @ snd ?l2)"
    let ?run = "load_parquet_to_postgres ?E4 ?L ?p ?tn ''copy'' True True []"
    note inst = workflow_stage_order[of ?E4 ?L ?p ?tn "''copy''" True True "[]",
        unfolded Let_def append_Nil if_True if_False]
    have a1: "\<not> isl (fst ?c1)" by code_simp
    have a2: "\<not> isl (fst ?l2)" by code_simp
    have a3: "isl (fst ?i3)" by code_simp
    have c: "?i3 = (Inl (CallError (PgSelectColumns ?tn)),
                   [Ok (PgConnect (pg_conn_str ?L)), Failed (PgSelectColumns ?tn),
                    Ok (PgExit False)])"
      by code_simp
    note k11 = inst
        [THEN conj_skip5, THEN conjunct1]
    have r: "?run = (Inl (projl (fst ?i3)),
        Info (Starting ?p ?tn) # snd ?c1 @ snd ?l2 @ snd ?i3)"
      by (rule k11[THEN mp, OF conjI[OF a1 conjI[OF a2 a3]]])
    from a1 a2 a3 c r show ?thesis
      unfolding Let_def by (intro conjI)
  qed
  have g5: "let E = ?E; p = ?p; tn = ?tn;
           h1 = [Info (Starting p tn)];
           c1 = create_table_from_parquet E trips_loader p tn True h1;
           l2 = load_step E trips_loader p tn ''direct'' (h1 @ snd c1);
           i3 = (return () :: unit action) (h1 @ snd c1 @ snd l2);
           run = load_parquet_to_postgres E trips_loader p tn ''direct'' True False []
       in \<not> isl (fst c1) \<and> \<not> isl (fst l2) \<and> \<not> isl (fst i3)
          \<and> i3 = (Inr (), [])
          \<and> snd l2 = [Ok DuckConnect, Ok DuckInstallPostgres, Ok DuckLoadPostgres,
                      Ok (DuckAttach (pg_conn_str trips_loader)), Ok (DuckInsertSelect tn p),
                      Info (LoadedDirect tn), Ok DuckClose]
          \<and> run = (Inr (), Info (Starting p tn) # snd c1 @ snd l2 @ snd i3
                             @ [Info (Succeeded p tn)])"
  proof -
    let ?c1 = "create_table_from_parquet ?E ?L ?p ?tn True ?h1"
    let ?l2 = "load_step ?E ?L ?p ?tn ''direct'' (?h1 @ snd ?c1)"
    let ?i3 = "(return () :: unit action) (?h1 @ snd ?c1 @ snd ?l2)"
    let ?run = "load_parquet_to_postgres ?E ?L ?p ?tn ''direct'' True False []"
    note inst = workflow_stage_order[of ?E ?L ?p ?tn "''direct''" True False "[]",
        unfolded Let_def append_Nil if_True if_False]
    have a1: "\<not> isl (fst ?c1)" by code_simp
    have a2: "\<not> isl (fst ?l2)" by code_simp
    have a3: "\<not> isl (fst ?i3)" by (simp add: return_def)
    note k12 = inst
        [THEN conj_skip5, THEN conj_skip5, THEN conjunct2, THEN conjunct2, THEN conjunct2,
         THEN conjunct2, THEN conjunct1]
    have i: "?i3 = (Inr (), [])"
      by (rule k12[THEN mp, OF not_False_eq_True[THEN iffD2, OF TrueI]])
    note k13 = inst
        [THEN conj_skip5, THEN conj_skip5, THEN conj_skip5, THEN conjunct2, THEN conjunct1]
    have l: "snd ?l2 = [Ok DuckConnect, Ok DuckInstallPostgres, Ok DuckLoadPostgres,
                      Ok (DuckAttach (pg_conn_str ?L)), Ok (DuckInsertSelect ?tn ?p),
                      Info (LoadedDirect ?tn), Ok DuckClose]"
      by (rule k13[THEN mp, OF conjI[OF a2 refl]])
    note k14 = inst
        [THEN conj_skip5, THEN conjunct2, THEN conjunct1]
    have r: "?run = (Inr (), Info (Starting ?p ?tn) # snd ?c1 @ snd ?l2
        @ snd ?i3 @ [Info (Succeeded ?p ?tn)])"
      by (rule k14[THEN mp, OF conjI[OF a1 conjI[OF a2 a3]]])
    from a1 a2 a3 i l r show ?thesis
      unfolding Let_def by (intro conjI)
  qed
  have g6: "let E = ?E; p = ?p; tn = ?tn;
           h1 = [Info (Starting p tn)];
           c1 = create_table_from_parquet E trips_loader p tn True h1;
           l2 = load_step E trips_loader p tn ''batch'' (h1 @ snd c1)
       in \<not> isl (fst l2)
          \<and> inserted_batches (snd l2) = chunks 10000 (source_rows E)
          \<and> chunks 10000 (source_rows E)
               = [[[''1'', ''2024-01-01 00:00:00''], [''2'', ''2024-01-01 00:05:00'']]]"
  proof -
    let ?c1 = "create_table_from_parquet ?E ?L ?p ?tn True ?h1"
    let ?l2 = "load_step ?E ?L ?p ?tn ''batch'' (?h1 @ snd ?c1)"
    note inst = workflow_stage_order[of ?E ?L ?p ?tn "''batch''" True True "[]",
        unfolded Let_def append_Nil if_True if_False]
    have a2: "\<not> isl (fst ?l2)" by code_simp
    note k15 = inst
        [THEN conj_skip5, THEN conj_skip5, THEN conj_skip5, THEN conjunct2, THEN conjunct2,
         THEN conjunct2, THEN conjunct1]
    have b: "inserted_batches (snd ?l2) = chunks 10000 (source_rows ?E)"
      by (rule k15[THEN mp, OF conjI[OF a2 refl]])
    have ev: "chunks 10000 (source_rows ?E)
               = [[[''1'', ''2024-01-01 00:00:00''], [''2'', ''2024-01-01 00:05:00'']]]"
      by code_simp
    from a2 b ev show ?thesis
      unfolding Let_def by (intro conjI)
  qed
  have g7: "let E = ?E; p = ?p; tn = ?tn;
           h1 = [Info (Starting p tn)];
           c1 = create_table_from_parquet E trips_loader p tn True h1;
           l2 = load_step E trips_loader p tn ''bulk'' (h1 @ snd c1)
       in ''bulk'' \<notin> set [''direct'', ''copy'', ''batch'']
          \<and> l2 = (Inl (ValueError ''Unknown method: bulk''),
                   [Raised (ValueError ''Unknown method: bulk'')])"
  proof -
    let ?c1 = "create_table_from_parquet ?E ?L ?p ?tn True ?h1"
    let ?l2 = "load_step ?E ?L ?p ?tn ''bulk'' (?h1 @ snd ?c1)"
    note inst = workflow_stage_order[of ?E ?L ?p ?tn "''bulk''" True True "[]",
        unfolded Let_def append_Nil if_True if_False]
    have a: "''bulk'' \<notin> set [''direct'', ''copy'', ''batch'']" by simp
    note k16 = inst
        [THEN conj_skip5, THEN conj_skip5, THEN conjunct2, THEN conjunct2, THEN conjunct1]
    have "?l2 = (Inl (ValueError (''Unknown method: '' @ ''bulk'')),
                   [Raised (ValueError (''Unknown method: '' @ ''bulk''))])"
      by (rule k16[THEN mp, OF a])
    then have l: "?l2 = (Inl (ValueError ''Unknown method: bulk''),
                   [Raised (ValueError ''Unknown method: bulk'')])"
      by simp
    from a l show ?thesis
      unfolding Let_def by (intro conjI)
  qed
  from g1 g2 g3 g4 g5 g6 g7 show ?thesis
    by (intro conjI)
qed

end
